theory Spec2Isabelle
  imports Complex_Main "HOL-Library.AList"
begin

section \<open>jwlib/download.py: data model\<close>

text \<open>
  The module \<^verbatim>\<open>jwlib/download.py\<close> synchronises a list of media descriptors with a local
  directory: it checks the files already present, resumes or starts downloads through a
  staging file (\<^verbatim>\<open>name + '.part'\<close>), and deletes the oldest videos when free space runs low.

  The embedding follows the source function by function. What the functions do to the
  outside world is made explicit in a \<open>world\<close> value that every function takes and
  returns: the listing of the media directory, the messages written to the console and the
  HTTP requests issued. What the outside world does to the program sits in an \<open>env\<close>
  value: the server's answers, the digest function of \<^verbatim>\<open>hashlib\<close>, the free space
  reported by \<^verbatim>\<open>shutil.disk_usage\<close>, and the two helpers of the classes \<^verbatim>\<open>Media\<close> and
  \<^verbatim>\<open>Path\<close> whose code lives in other modules (\<^verbatim>\<open>find_file\<close>, \<^verbatim>\<open>is_mp4\<close>).
  An exception is a value \<open>Inl err\<close>, returned together with the world reached when it
  was raised.
\<close>

type_synonym bytes = string

text \<open>The exceptions the module raises or lets through.\<close>

datatype error =
    MissingTimestampError
  | DiskLimitReached
  | AssertionError
  | TypeError
  | FileNotFoundError
  | SystemExit
  | URLError

text \<open>
  \<^verbatim>\<open>Media\<close> (from \<^verbatim>\<open>jwlib/parse.py\<close>): the fields this module reads. \<^verbatim>\<open>size\<close>, \<^verbatim>\<open>md5\<close> and
  \<^verbatim>\<open>date\<close> are optional; the source tests them by truth value, so \<^verbatim>\<open>None\<close>, \<^verbatim>\<open>0\<close> and
  the empty string all count as unknown. The field \<^verbatim>\<open>size\<close> is named \<open>size_media\<close> here.
\<close>

record media =
  url :: string
  filename :: string
  name :: string
  size_media :: "int option"
  md5 :: "string option"
  date :: "int option"

text \<open>
  \<^verbatim>\<open>Settings\<close> (from \<^verbatim>\<open>jwlib/common.py\<close>): the fields this module reads. The media directory
  itself is the directory of the \<open>world\<close>. \<^verbatim>\<open>rate_limit\<close> is a float in the source and an
  exact rational here.
\<close>

record settings =
  keep_free :: int
  quiet :: int
  checksums :: bool
  overwrite_bad :: bool
  rate_limit :: rat

text \<open>A file of the media directory: what \<^verbatim>\<open>Path.size\<close> and \<^verbatim>\<open>Path.mtime\<close> read.\<close>

record local_file =
  content :: bytes
  mtime :: int

definition size_of :: "local_file \<Rightarrow> int" where
  "size_of f = int (length (content f))"

text \<open>The lines \<^verbatim>\<open>msg\<close> and \<^verbatim>\<open>print\<close> write, one constructor per format string.\<close>

datatype message =
    Scanning
  | Skipping string
  | Counter nat nat
  | Resuming string string
  | SizeMismatchDeleting string
  | ChecksumMismatchDeleting string
  | Downloading string string
  | DownloadFailed string
  | SizeMismatch string
  | ChecksumMismatch string
  | FreeSpace int int
  | NoVideos
  | LimitReachedUpToDate
  | RemovingOldVideo string

text \<open>
  The state the module changes. \<open>files\<close> is the media directory in the order
  \<^verbatim>\<open>iterdir\<close> lists it; \<open>now\<close> is the wall clock a write stamps on a file (it does not
  advance in the model); \<open>console\<close> collects the console lines; \<open>requests\<close> collects every
  request sent, as the URL and the first byte asked for in its \<^verbatim>\<open>Range\<close> header.
\<close>

record world =
  files :: "(string \<times> local_file) list"
  now :: int
  console :: "message list"
  requests :: "(string \<times> nat) list"

text \<open>
  The collaborators. \<open>urlopen e u n\<close> is the body the server sends for URL \<open>u\<close> from byte
  \<open>n\<close> on, or the exception \<^verbatim>\<open>urllib.request.urlopen\<close> raises. \<open>hexdigest e\<close> is
  \<^verbatim>\<open>hashlib.md5\<close> followed by \<^verbatim>\<open>hexdigest\<close>. \<open>disk_free e\<close> is the free space
  \<^verbatim>\<open>shutil.disk_usage\<close> reports for a given directory content. \<open>find_file e\<close> is
  \<^verbatim>\<open>Media.find_file\<close>, the name of the media's final file in the directory, and \<open>is_mp4 e\<close>
  is \<^verbatim>\<open>Path.is_mp4\<close>; both are defined outside this module and are left open.
\<close>

record env =
  urlopen :: "string \<Rightarrow> nat \<Rightarrow> error + bytes"
  hexdigest :: "bytes \<Rightarrow> string"
  disk_free :: "(string \<times> local_file) list \<Rightarrow> int"
  find_file :: "media \<Rightarrow> (string \<times> local_file) list \<Rightarrow> string"
  is_mp4 :: "string \<Rightarrow> bool"

subsection \<open>Python truth values\<close>

text \<open>
  \<^verbatim>\<open>x and P(x)\<close> used as a condition, for an optional integer and an optional string:
  false when \<open>x\<close> is \<^verbatim>\<open>None\<close>, zero or empty, and \<open>P x\<close> otherwise.
\<close>

definition int_and :: "int option \<Rightarrow> (int \<Rightarrow> bool) \<Rightarrow> bool" where
  "int_and x P = (case x of None \<Rightarrow> False | Some n \<Rightarrow> n \<noteq> 0 \<and> P n)"

definition str_and :: "string option \<Rightarrow> (string \<Rightarrow> bool) \<Rightarrow> bool" where
  "str_and x P = (case x of None \<Rightarrow> False | Some h \<Rightarrow> h \<noteq> [] \<and> P h)"

definition truthy :: "int option \<Rightarrow> bool" where
  "truthy x = int_and x (\<lambda>_. True)"

subsection \<open>The file system and the console\<close>

definition lookup :: "world \<Rightarrow> string \<Rightarrow> local_file option" where
  "lookup w p = map_of (files w) p"

definition unlink :: "string \<Rightarrow> world \<Rightarrow> world" where
  "unlink p w = w\<lparr>files := AList.delete p (files w)\<rparr>"

definition write_file :: "string \<Rightarrow> bytes \<Rightarrow> world \<Rightarrow> world" where
  "write_file p bs w = w\<lparr>files := AList.update p \<lparr>content = bs, mtime = now w\<rparr> (files w)\<rparr>"

definition set_mtime :: "string \<Rightarrow> int \<Rightarrow> world \<Rightarrow> world" where
  "set_mtime p t w =
     (case lookup w p of
        None \<Rightarrow> w
      | Some f \<Rightarrow> w\<lparr>files := AList.update p (f\<lparr>mtime := t\<rparr>) (files w)\<rparr>)"

definition rename :: "string \<Rightarrow> string \<Rightarrow> world \<Rightarrow> world" where
  "rename p q w =
     (case lookup w p of
        None \<Rightarrow> w
      | Some f \<Rightarrow> w\<lparr>files := AList.update q f (AList.delete p (files w))\<rparr>)"

text \<open>\<^verbatim>\<open>if c: msg(m)\<close>.\<close>

definition msg_if :: "bool \<Rightarrow> message \<Rightarrow> world \<Rightarrow> world" where
  "msg_if c m w = (if c then w\<lparr>console := console w @ [m]\<rparr> else w)"

text \<open>
  \<^verbatim>\<open>_md5\<close>: the file is fed to the hash in blocks of 4096 bytes; the digest is the digest
  of its content.
\<close>

definition md5_file :: "env \<Rightarrow> local_file \<Rightarrow> string" where
  "md5_file e f = hexdigest e (content f)"


section \<open>The functions of the module\<close>

subsection \<open>\<^verbatim>\<open>check_media\<close>\<close>

definition check_media :: "env \<Rightarrow> settings \<Rightarrow> media \<Rightarrow> world \<Rightarrow> bool \<times> world" where
  "check_media e s m w =
     (let file = find_file e m (files w) in
      case lookup w file of
        None \<Rightarrow> (False, w)
      | Some f \<Rightarrow>
          if overwrite_bad s then
            (if int_and (size_media m) (\<lambda>n. size_of f \<noteq> n)
             then (False, msg_if (quiet s < 2) (SizeMismatch file) w)
             else if checksums s \<and> str_and (md5 m) (\<lambda>h. md5_file e f \<noteq> h)
             then (False, msg_if (quiet s < 2) (ChecksumMismatch file) w)
             else (True, w))
          else (True, w))"

subsection \<open>\<^verbatim>\<open>download_file\<close>\<close>

text \<open>
  The chunk size: \<^verbatim>\<open>int(rate_limit * 1024 * 1024)\<close> (truncation towards zero) when a rate
  limit is set, one MiB otherwise.
\<close>

definition chunk_size :: "rat \<Rightarrow> int" where
  "chunk_size rl =
     (if rl \<noteq> 0
      then (if 0 \<le> rl then \<lfloor>rl * 1024 * 1024\<rfloor> else \<lceil>rl * 1024 * 1024\<rceil>)
      else 1024 * 1024)"

text \<open>
  \<^verbatim>\<open>response.read(n)\<close> on what is left of the body: the next \<open>n\<close> bytes, fewer at the end
  of the body, and all that is left when \<open>n\<close> is negative.
\<close>

definition response_read :: "int \<Rightarrow> bytes \<Rightarrow> bytes" where
  "response_read n body = (if n < 0 then body else take (nat n) body)"

text \<open>
  The \<^verbatim>\<open>while True\<close> loop of \<^verbatim>\<open>download_file\<close>: it reads chunk after chunk, stops at the
  first empty one and writes every other one. The result is what the loop has written.
  Sleeping and the progress bar are left out.
\<close>

function write_chunks :: "int \<Rightarrow> bytes \<Rightarrow> bytes" where
  "write_chunks n body =
     (let chunk = response_read n body in
      if chunk = [] then [] else chunk @ write_chunks n (drop (length chunk) body))"
  by pat_completeness auto
termination
  by (relation "measure (\<lambda>(n, body). length body)")
     (auto simp: response_read_def split: if_splits)

declare write_chunks.simps [simp del]

text \<open>What the loop writes: the whole body, unless the chunk size is zero.\<close>

lemma take_drop_min: "take k xs @ drop (min (length xs) k) xs = xs"
  by (cases "k \<le> length xs") (simp_all add: min_def)

lemma write_chunks_eq: "write_chunks n body = (if n = 0 then [] else body)"
proof (induction n body rule: write_chunks.induct)
  case (1 n body)
  show ?case
  proof (cases "response_read n body = []")
    case True
    then show ?thesis
      by (subst write_chunks.simps) (auto simp: response_read_def split: if_splits)
  next
    case False
    with "1.IH" [OF refl False]
    have "write_chunks n body =
            response_read n body @
              (if n = 0 then [] else drop (length (response_read n body)) body)"
      by (subst write_chunks.simps) (simp add: Let_def)
    with False show ?thesis
      by (auto simp: response_read_def take_drop_min split: if_splits)
  qed
qed


text \<open>
  \<open>download_file e u p resume rl w\<close>: with \<open>resume\<close> and an existing file the mode is
  append and the request starts at the file's size; otherwise the file is created or
  truncated and the request starts at byte 0. An exception of \<^verbatim>\<open>urlopen\<close> leaves the
  file as it was.

  The model covers the runs in which the transfer either is refused by \<^verbatim>\<open>urlopen\<close> or
  completes. It leaves out the \<^verbatim>\<open>progress\<close> argument and lines 233 to 238 (which raise
  when the progress bar is asked for and the response has no \<^verbatim>\<open>Content-Length\<close>), and
  every exception raised once the response is open: a read that fails midway, which
  leaves a partly written staging file, and the \<^verbatim>\<open>ValueError\<close> of \<^verbatim>\<open>read\<close> for a chunk size
  below -1.
\<close>

definition download_file ::
  "env \<Rightarrow> string \<Rightarrow> string \<Rightarrow> bool \<Rightarrow> rat \<Rightarrow> world \<Rightarrow> (error + unit) \<times> world" where
  "download_file e u p resume rl w =
     (let old = (if resume then map_option content (lookup w p) else None);
          done_bytes = (case old of Some c \<Rightarrow> length c | None \<Rightarrow> 0);
          w1 = w\<lparr>requests := requests w @ [(u, done_bytes)]\<rparr>
      in case urlopen e u done_bytes of
           Inl err \<Rightarrow> (Inl err, w1)
         | Inr body \<Rightarrow>
             (let written = write_chunks (chunk_size rl) body in
              case old of
                Some c \<Rightarrow> (Inr (), if written = [] then w1 else write_file p (c @ written) w1)
              | None \<Rightarrow> (Inr (), write_file p written w1)))"

subsection \<open>\<^verbatim>\<open>download_media\<close>\<close>

text \<open>
  \<^verbatim>\<open>if media.date: tmpfile.set_mtime(media.date)\<close> followed by \<^verbatim>\<open>tmpfile.rename(file)\<close>
  (lines 134 to 136 and 155 to 157).
\<close>

definition promote :: "media \<Rightarrow> string \<Rightarrow> string \<Rightarrow> world \<Rightarrow> world" where
  "promote m tmpfile file w =
     rename tmpfile file
       (case date m of
          None \<Rightarrow> w
        | Some d \<Rightarrow> if d \<noteq> 0 then set_mtime tmpfile d w else w)"

text \<open>
  What \<open>promote\<close> leaves under the final name: the staging file, with the publish
  date as its mtime when the date is known.
\<close>

definition stamped :: "media \<Rightarrow> local_file \<Rightarrow> local_file" where
  "stamped m t = (case date m of None \<Rightarrow> t | Some d \<Rightarrow> if d \<noteq> 0 then t\<lparr>mtime := d\<rparr> else t)"

text \<open>
  The regular download, from the comment \<^verbatim>\<open># Continuing to regular download\<close> to the end
  of \<^verbatim>\<open>download_media\<close> (lines 139 to 169). It is a definition of its own because two
  branches of the resumed path fall through to it.
\<close>

definition regular_download ::
  "env \<Rightarrow> settings \<Rightarrow> media \<Rightarrow> string \<Rightarrow> world \<Rightarrow> (error + bool) \<times> world" where
  "regular_download e s m file w =
     (let tmpfile = file @ ''.part'';
          w0 = msg_if (quiet s < 2) (Downloading (filename m) (name m)) w
      in case download_file e (url m) tmpfile False (rate_limit s) w0 of
           (Inl err, w1) \<Rightarrow> (Inl err, w1)
         | (Inr _, w1) \<Rightarrow>
             (case lookup w1 tmpfile of
                None \<Rightarrow> (Inr False, msg_if (quiet s < 2) (DownloadFailed (filename m)) w1)
              | Some t \<Rightarrow>
                  if size_of t = 0
                  then (Inr False,
                        msg_if (quiet s < 2) (DownloadFailed (filename m)) (unlink tmpfile w1))
                  else
                    (let w2 = promote m tmpfile file w1 in
                     case lookup w2 file of
                       None \<Rightarrow> (Inl FileNotFoundError, w2)
                     | Some f \<Rightarrow>
                         if int_and (size_media m) (\<lambda>n. size_of f \<noteq> n)
                         then (Inr False, msg_if (quiet s < 2) (SizeMismatch file) w2)
                         else if checksums s \<and> str_and (md5 m) (\<lambda>h. md5_file e f \<noteq> h)
                         then (Inr True, msg_if (quiet s < 2) (ChecksumMismatch file) w2)
                         else (Inr True, w2))))"

text \<open>Lines 115 to 118: the transfer is resumed when the staging file is too short.\<close>

definition resume_download ::
  "env \<Rightarrow> settings \<Rightarrow> media \<Rightarrow> string \<Rightarrow> local_file \<Rightarrow> world \<Rightarrow> (error + unit) \<times> world" where
  "resume_download e s m tmpfile t w =
     (if int_and (size_media m) (\<lambda>n. size_of t < n)
      then download_file e (url m) tmpfile True (rate_limit s)
             (msg_if (quiet s < 2) (Resuming (filename m) (name m)) w)
      else (Inr (), w))"

definition download_media ::
  "env \<Rightarrow> settings \<Rightarrow> media \<Rightarrow> world \<Rightarrow> (error + bool) \<times> world" where
  "download_media e s m w =
     (let file = find_file e m (files w);
          tmpfile = file @ ''.part''
      in case lookup w tmpfile of
           None \<Rightarrow> regular_download e s m file w
         | Some t \<Rightarrow>
             (case resume_download e s m tmpfile t w of
                (Inl err, w1) \<Rightarrow> (Inl err, w1)
              | (Inr _, w1) \<Rightarrow>
                  (case lookup w1 tmpfile of
                     None \<Rightarrow> (Inl FileNotFoundError, w1)
                   | Some t1 \<Rightarrow>
                       if int_and (size_media m) (\<lambda>n. size_of t1 \<noteq> n)
                       then regular_download e s m file
                              (unlink tmpfile
                                 (msg_if (quiet s < 2) (SizeMismatchDeleting tmpfile) w1))
                       else if str_and (md5 m) (\<lambda>h. md5_file e t1 \<noteq> h)
                       then regular_download e s m file
                              (unlink tmpfile
                                 (msg_if (quiet s < 2) (ChecksumMismatchDeleting tmpfile) w1))
                       else (Inr True, promote m tmpfile file w1))))"


subsection \<open>\<^verbatim>\<open>disk_cleanup\<close>\<close>

text \<open>
  \<^verbatim>\<open>min(xs, key=k)\<close>: the first element whose key is least; \<^verbatim>\<open>ValueError\<close> on an empty
  sequence is the value \<open>None\<close>.
\<close>

fun min_from :: "('a \<Rightarrow> int) \<Rightarrow> 'a \<Rightarrow> 'a list \<Rightarrow> 'a" where
  "min_from k best [] = best"
| "min_from k best (x # xs) = min_from k (if k x < k best then x else best) xs"

definition py_min :: "('a \<Rightarrow> int) \<Rightarrow> 'a list \<Rightarrow> 'a option" where
  "py_min k xs = (case xs of [] \<Rightarrow> None | x # rest \<Rightarrow> Some (min_from k x rest))"

text \<open>How one pass through the body of a \<^verbatim>\<open>while True\<close> loop ends.\<close>

datatype flow = Break | Raise error | Continue

text \<open>
  The body of the loop of \<^verbatim>\<open>disk_cleanup\<close> (lines 274 to 302). \<^verbatim>\<open>exit(1)\<close> raises
  \<^verbatim>\<open>SystemExit\<close>.
\<close>

definition cleanup_body :: "env \<Rightarrow> settings \<Rightarrow> media \<Rightarrow> world \<Rightarrow> flow \<times> world" where
  "cleanup_body e s r w =
     (case size_media r of
        None \<Rightarrow> (Raise TypeError, w)
      | Some sz \<Rightarrow>
          (let space = disk_free e (files w);
               needed = sz + keep_free s
           in if space > needed then (Break, w)
              else
                (let w1 = msg_if (quiet s < 1)
                            (FreeSpace (space div 1024 ^ 2) (needed div 1024 ^ 2)) w
                 in case date r of
                      None \<Rightarrow> (Raise MissingTimestampError, w1)
                    | Some d \<Rightarrow>
                        if d = 0 then (Raise MissingTimestampError, w1)
                        else
                          (case py_min (\<lambda>(p, f). mtime f)
                                  (filter (\<lambda>(p, f). is_mp4 e p) (files w1)) of
                             None \<Rightarrow> (Raise SystemExit, msg_if True NoVideos w1)
                           | Some (p, oldest) \<Rightarrow>
                               if d \<le> mtime oldest
                               then (Raise DiskLimitReached,
                                     msg_if (quiet s < 1) LimitReachedUpToDate w1)
                               else (Continue,
                                     unlink p
                                       (msg_if (quiet s < 2) (RemovingOldVideo p) w1))))))"

lemma min_from_in: "min_from k best xs \<in> set (best # xs)"
  by (induction xs arbitrary: best) (auto split: if_splits)

lemma min_from_least: "x \<in> set (best # xs) \<Longrightarrow> k (min_from k best xs) \<le> k x"
proof (induction xs arbitrary: best x)
  case Nil
  then show ?case by simp
next
  case (Cons y ys)
  let ?b = "if k y < k best then y else best"
  have step: "k (min_from k ?b ys) \<le> k ?b"
    using Cons.IH [of ?b ?b] by simp
  from Cons.prems consider "x = best" | "x = y" | "x \<in> set ys" by auto
  then show ?case
  proof cases
    case 1
    with step show ?thesis by (simp split: if_splits)
  next
    case 2
    with step show ?thesis by (simp split: if_splits)
  next
    case 3
    then show ?thesis using Cons.IH [of x ?b] by simp
  qed
qed

lemma py_min_in: "py_min k xs = Some x \<Longrightarrow> x \<in> set xs"
  using min_from_in [of k] by (auto simp: py_min_def split: list.splits)

lemma py_min_least: "py_min k xs = Some x \<Longrightarrow> y \<in> set xs \<Longrightarrow> k x \<le> k y"
  using min_from_least [of y _ _ k] by (auto simp: py_min_def split: list.splits)

lemma length_delete_less: "(p, f) \<in> set al \<Longrightarrow> length (AList.delete p al) < length al"
  by (induction al) (auto simp: less_Suc_eq_le AList.length_delete_le)

lemma files_msg_if [simp]: "files (msg_if c m w) = files w"
  by (simp add: msg_if_def)

lemma cleanup_body_Continue:
  assumes "cleanup_body e s r w = (Continue, w')"
  shows "length (files w') < length (files w)"
proof -
  from assms obtain p oldest where
    m: "py_min (\<lambda>(p, f). mtime f) (filter (\<lambda>(p, f). is_mp4 e p) (files w)) = Some (p, oldest)"
    and w': "files w' = AList.delete p (files w)"
    by (auto simp: cleanup_body_def Let_def unlink_def
             split: option.splits if_splits prod.splits)
  from py_min_in [OF m] have "(p, oldest) \<in> set (files w)" by simp
  with w' show ?thesis by (simp add: length_delete_less)
qed

text \<open>The loop: it runs the body until the body breaks or raises.\<close>

function cleanup_loop ::
  "env \<Rightarrow> settings \<Rightarrow> media \<Rightarrow> world \<Rightarrow> (error + unit) \<times> world" where
  "cleanup_loop e s r w =
     (case cleanup_body e s r w of
        (Break, w1) \<Rightarrow> (Inr (), w1)
      | (Raise err, w1) \<Rightarrow> (Inl err, w1)
      | (Continue, w1) \<Rightarrow> cleanup_loop e s r w1)"
  by pat_completeness auto
termination
  by (relation "measure (\<lambda>(e, s, r, w). length (files w))")
     (auto dest: cleanup_body_Continue [OF sym])

declare cleanup_loop.simps [simp del]

lemma cleanup_body_files:
  "cleanup_body e s r w = (fl, w') \<Longrightarrow> fl \<noteq> Continue \<Longrightarrow> files w' = files w"
  by (auto simp: cleanup_body_def Let_def split: option.splits if_splits prod.splits)

lemma cleanup_body_requests:
  "cleanup_body e s r w = (fl, w') \<Longrightarrow> requests w' = requests w"
  by (auto simp: cleanup_body_def Let_def msg_if_def unlink_def split: option.splits if_splits prod.splits)

lemma cleanup_body_ContinueD:
  assumes "cleanup_body e s r w = (Continue, w')"
  obtains p oldest d where
    "py_min (\<lambda>(p, f). mtime f) (filter (\<lambda>(p, f). is_mp4 e p) (files w)) = Some (p, oldest)"
    "files w' = AList.delete p (files w)" "date r = Some d" "d \<noteq> 0" "mtime oldest < d"
  using assms
  by (auto simp: cleanup_body_def Let_def unlink_def
           split: option.splits if_splits prod.splits)

lemma cleanup_loop_stop:
  "cleanup_body e s r w = (fl, w1) \<Longrightarrow> fl \<noteq> Continue \<Longrightarrow>
   cleanup_loop e s r w = ((case fl of Break \<Rightarrow> Inr () | Raise err \<Rightarrow> Inl err | Continue \<Rightarrow> Inr ()), w1)"
  by (subst cleanup_loop.simps) (cases fl; simp)

lemma cleanup_loop_again:
  "cleanup_body e s r w = (Continue, w1) \<Longrightarrow> cleanup_loop e s r w = cleanup_loop e s r w1"
  by (subst cleanup_loop.simps) simp

lemma cleanup_loop_deleted:
  "distinct (map fst (files w)) \<Longrightarrow> (p, f) \<in> set (files w) \<Longrightarrow>
   p \<notin> fst ` set (files (snd (cleanup_loop e s r w))) \<Longrightarrow>
   \<exists>d. date r = Some d \<and> d \<noteq> 0 \<and> mtime f < d"
proof (induction e s r w rule: cleanup_loop.induct)
  case (1 e s r w)
  obtain fl w1 where body: "cleanup_body e s r w = (fl, w1)"
    by (cases "cleanup_body e s r w")
  show ?case
  proof (cases "fl = Continue")
    case False
    from cleanup_loop_stop [OF body False] cleanup_body_files [OF body False]
    have "files (snd (cleanup_loop e s r w)) = files w" by simp
    with "1.prems"(3) have "p \<notin> fst ` set (files w)" by simp
    with "1.prems"(2) show ?thesis by (simp add: image_iff) (metis fst_conv)
  next
    case True
    with body have c: "cleanup_body e s r w = (Continue, w1)" by simp
    from c obtain q oldest d where
      m: "py_min (\<lambda>(p, f). mtime f) (filter (\<lambda>(p, f). is_mp4 e p) (files w)) = Some (q, oldest)"
      and w1: "files w1 = AList.delete q (files w)"
      and d: "date r = Some d" "d \<noteq> 0" "mtime oldest < d"
      by (rule cleanup_body_ContinueD)
    from py_min_in [OF m] have mem: "(q, oldest) \<in> set (files w)" by simp
    show ?thesis
    proof (cases "p = q")
      case True
      with mem "1.prems"(1,2) have "f = oldest"
        using eq_key_imp_eq_value by fastforce
      with d show ?thesis by simp
    next
      case False
      with "1.prems"(2) w1 have in1: "(p, f) \<in> set (files w1)"
        by (simp add: AList.delete_eq)
      from "1.prems"(1) w1 have d1: "distinct (map fst (files w1))"
        by (simp add: AList.distinct_delete)
      from "1.prems"(3) cleanup_loop_again [OF c]
      have "p \<notin> fst ` set (files (snd (cleanup_loop e s r w1)))"
        by simp
      from "1.IH" [OF c [symmetric] refl d1 in1 this] show ?thesis .
    qed
  qed
qed


text \<open>\<^verbatim>\<open>disk_cleanup\<close>: the two assertions, then the loop.\<close>

definition disk_cleanup ::
  "env \<Rightarrow> settings \<Rightarrow> media \<Rightarrow> world \<Rightarrow> (error + unit) \<times> world" where
  "disk_cleanup e s reference_media w =
     (if keep_free s = 0 then (Inl AssertionError, w)
      else if \<not> truthy (size_media reference_media) then (Inl AssertionError, w)
      else cleanup_loop e s reference_media w)"

subsection \<open>\<^verbatim>\<open>download_all\<close>\<close>

text \<open>
  The list comprehension of line 29: \<^verbatim>\<open>check_media\<close> runs on every item, in order, before
  anything is downloaded; the items it rejects form the download list.
\<close>

fun scan :: "env \<Rightarrow> settings \<Rightarrow> media list \<Rightarrow> world \<Rightarrow> media list \<times> world" where
  "scan e s [] w = ([], w)"
| "scan e s (m # ms) w =
     (case check_media e s m w of
        (ok, w1) \<Rightarrow>
          (case scan e s ms w1 of
             (rest, w2) \<Rightarrow> (if ok then rest else m # rest, w2)))"

text \<open>
  The \<^verbatim>\<open>for\<close> loop of lines 31 to 46 over what is left of the download list; \<open>num\<close> is
  the index \<^verbatim>\<open>enumerate\<close> gives the head of the list and \<open>len\<close> the length of the whole
  download list.
\<close>

fun download_loop ::
  "env \<Rightarrow> settings \<Rightarrow> nat \<Rightarrow> nat \<Rightarrow> media list \<Rightarrow> world \<Rightarrow> (error + unit) \<times> world" where
  "download_loop e s len num [] w = (Inr (), w)"
| "download_loop e s len num (m # ms) w =
     (case (if keep_free s > 0 then disk_cleanup e s m w else (Inr (), w)) of
        (Inl MissingTimestampError, w1) \<Rightarrow>
          download_loop e s len (num + 1) ms (msg_if (quiet s < 2) (Skipping (name m)) w1)
      | (Inl DiskLimitReached, w1) \<Rightarrow> (Inr (), w1)
      | (Inl err, w1) \<Rightarrow> (Inl err, w1)
      | (Inr _, w1) \<Rightarrow>
          (case download_media e s m (msg_if (quiet s < 2) (Counter (num + 1) len) w1) of
             (Inl err, w2) \<Rightarrow> (Inl err, w2)
           | (Inr _, w2) \<Rightarrow> download_loop e s len (num + 1) ms w2))"

definition download_all ::
  "env \<Rightarrow> settings \<Rightarrow> media list \<Rightarrow> world \<Rightarrow> (error + unit) \<times> world" where
  "download_all e s media_list w =
     (case scan e s media_list (msg_if (quiet s < 1) Scanning w) of
        (download_list, w1) \<Rightarrow> download_loop e s (length download_list) 0 download_list w1)"


section \<open>Concrete inputs\<close>

text \<open>
  A small environment to run the functions on: a server that holds the ten bytes
  \<open>abcdefghij\<close> under every URL and honours the range it is asked for, a stand-in digest
  (the content itself), a volume of 20 bytes shared by the files of the directory, final
  files named by \<open>filename\<close>, and videos recognised by their suffix.
\<close>

definition ex_env :: env where
  "ex_env = \<lparr>urlopen = (\<lambda>u n. Inr (drop n ''abcdefghij'')),
          hexdigest = (\<lambda>bs. bs),
          disk_free = (\<lambda>fs. 20 - sum_list (map (\<lambda>(p, f). size_of f) fs)),
          find_file = (\<lambda>m fs. filename m),
          is_mp4 = (\<lambda>p. drop (length p - 4) p = ''.mp4'')\<rparr>"

definition ex_settings :: settings where
  "ex_settings = \<lparr>keep_free = 2, quiet = 0, checksums = False, overwrite_bad = False, rate_limit = 0\<rparr>"

definition ex_media :: media where
  "ex_media = \<lparr>url = ''u'', filename = ''v.mp4'', name = ''V'', size_media = Some 3,
          md5 = None, date = Some 5\<rparr>"

definition old_a :: local_file where "old_a = \<lparr>content = ''aaaaaaaa'', mtime = 1\<rparr>"
definition new_b :: local_file where "new_b = \<lparr>content = ''bbbbbbbb'', mtime = 10\<rparr>"

definition ex_world :: world where
  "ex_world = \<lparr>files = [(''b.mp4'', new_b), (''a.mp4'', old_a)], now = 100, console = [], requests = []\<rparr>"

definition only_b :: world where
  "only_b = \<lparr>files = [(''b.mp4'', new_b)], now = 100, console = [], requests = []\<rparr>"

definition big_media :: media where
  "big_media = \<lparr>url = ''u'', filename = ''w.mp4'', name = ''W'', size_media = Some 13,
          md5 = None, date = Some 5\<rparr>"

text \<open>
  References for \<open>disk_cleanup\<close>: one whose size plus the floor is exactly the free
  space of \<open>ex_world\<close>, and one without a publish date.
\<close>

definition exact_media :: media where
  "exact_media = \<lparr>url = ''u'', filename = ''x.mp4'', name = ''X'', size_media = Some 2,
          md5 = None, date = Some 5\<rparr>"

definition undated_media :: media where
  "undated_media = \<lparr>url = ''u'', filename = ''y.mp4'', name = ''Y'', size_media = Some 2,
          md5 = None, date = None\<rparr>"

text \<open>
  Settings with \<^verbatim>\<open>--fix-broken\<close> on, without and with checksum verification, and a
  descriptor whose size differs from that of its file in \<open>ex_world\<close>.
\<close>

definition audit_settings :: settings where
  "audit_settings = \<lparr>keep_free = 2, quiet = 0, checksums = False, overwrite_bad = True,
                      rate_limit = 0\<rparr>"

definition strict_settings :: settings where
  "strict_settings = \<lparr>keep_free = 2, quiet = 0, checksums = True, overwrite_bad = True,
                       rate_limit = 0\<rparr>"

definition stale_media :: media where
  "stale_media = \<lparr>url = ''u'', filename = ''a.mp4'', name = ''A'', size_media = Some 3,
          md5 = None, date = Some 1\<rparr>"

text \<open>
  A descriptor that matches what the server holds; an empty directory; a directory with
  a staging file of four bytes that are not the first four bytes of the video; a
  directory with a complete staging file written earlier; a directory with a staging
  file that holds the first four bytes of the video; and a directory whose final file
  has the expected size and other content.
\<close>

definition good_media :: media where
  "good_media = \<lparr>url = ''u'', filename = ''v.mp4'', name = ''V'', size_media = Some 10,
          md5 = Some ''abcdefghij'', date = Some 7\<rparr>"

definition empty_dir :: world where
  "empty_dir = \<lparr>files = [], now = 100, console = [], requests = []\<rparr>"

definition part_world :: world where
  "part_world = \<lparr>files = [(''v.mp4.part'', \<lparr>content = ''XXXX'', mtime = 1\<rparr>)], now = 100,
                  console = [], requests = []\<rparr>"


definition half_part :: world where
  "half_part = \<lparr>files = [(''v.mp4.part'', \<lparr>content = ''abcd'', mtime = 1\<rparr>)], now = 100,
                 console = [], requests = []\<rparr>"

definition bad_final :: world where
  "bad_final = \<lparr>files = [(''v.mp4'', \<lparr>content = ''XXXXXXXXXX'', mtime = 7\<rparr>)], now = 100,
                 console = [], requests = []\<rparr>"

lemmas ex_defs = ex_env_def ex_settings_def ex_media_def old_a_def new_b_def ex_world_def
  only_b_def big_media_def

lemmas fs_defs = unlink_def write_file_def rename_def set_mtime_def lookup_def msg_if_def
  size_of_def md5_file_def int_and_def str_and_def truthy_def

lemmas cleanup_defs = disk_cleanup_def cleanup_loop.simps cleanup_body_def py_min_def Let_def

lemmas media_defs = download_media_def regular_download_def resume_download_def
  download_file_def write_chunks_eq chunk_size_def promote_def Let_def

section \<open>Properties of \<^verbatim>\<open>disk_cleanup\<close>\<close>

lemma cleanup_loop_limit:
  assumes "size_media r = Some sz" "disk_free e (files w) \<le> sz + keep_free s"
    "date r = Some d" "d \<noteq> 0"
    "py_min (\<lambda>(p, f). mtime f) (filter (\<lambda>(p, f). is_mp4 e p) (files w)) = Some (p, oldest)"
    "d \<le> mtime oldest"
  shows "fst (cleanup_loop e s r w) = Inl DiskLimitReached \<and>
         files (snd (cleanup_loop e s r w)) = files w"
proof -
  from assms have "\<exists>w1. cleanup_body e s r w = (Raise DiskLimitReached, w1) \<and> files w1 = files w"
    by (simp add: cleanup_body_def Let_def)
  then obtain w1 where b: "cleanup_body e s r w = (Raise DiskLimitReached, w1)"
    and f: "files w1 = files w" by blast
  from cleanup_loop_stop [OF b] f show ?thesis by simp
qed

text \<open>
  Claim C1. In every run of \<open>disk_cleanup\<close> a file is deleted only when the reference
  media's publish date is strictly later than the file's mtime: a file of the directory
  that is gone after the run was older than the reference's date. And whenever the loop is
  at a state where space is short, the reference has a date and that date is older than or
  equal to the mtime of the oldest video, the loop raises \<open>DiskLimitReached\<close> and leaves
  the directory as it is. The loop is \<open>cleanup_loop\<close>, which \<open>disk_cleanup\<close> enters
  once its two assertions hold; its state \<open>w\<close> is the state at the start of any pass.
  File names in a directory are distinct.
\<close>

theorem disk_cleanup_deletes_only_older:
  assumes "distinct (map fst (files w))"
  shows "(\<forall>p f. (p, f) \<in> set (files w) \<and>
                 p \<notin> fst ` set (files (snd (disk_cleanup e s r w)))
            \<longrightarrow> (\<exists>d. date r = Some d \<and> mtime f < d))
       \<and> (keep_free s \<noteq> 0 \<and> truthy (size_media r)
            \<longrightarrow> disk_cleanup e s r w = cleanup_loop e s r w)
       \<and> (\<forall>sz d p oldest.
             size_media r = Some sz \<and> disk_free e (files w) \<le> sz + keep_free s \<and>
             date r = Some d \<and> d \<noteq> 0 \<and>
             py_min (\<lambda>(p, f). mtime f) (filter (\<lambda>(p, f). is_mp4 e p) (files w))
               = Some (p, oldest) \<and>
             d \<le> mtime oldest
            \<longrightarrow> fst (cleanup_loop e s r w) = Inl DiskLimitReached \<and>
                files (snd (cleanup_loop e s r w)) = files w)"
proof (intro conjI allI impI)
  fix p f
  assume a: "(p, f) \<in> set (files w) \<and> p \<notin> fst ` set (files (snd (disk_cleanup e s r w)))"
  then have in_w: "(p, f) \<in> set (files w)" by simp
  then have "p \<in> fst ` set (files w)" by force
  with a have "disk_cleanup e s r w = cleanup_loop e s r w"
    by (auto simp: disk_cleanup_def split: if_splits)
  with a have "p \<notin> fst ` set (files (snd (cleanup_loop e s r w)))" by simp
  from cleanup_loop_deleted [OF assms in_w this]
  show "\<exists>d. date r = Some d \<and> mtime f < d" by blast
next
  assume "keep_free s \<noteq> 0 \<and> truthy (size_media r)"
  then show "disk_cleanup e s r w = cleanup_loop e s r w"
    by (simp add: disk_cleanup_def)
next
  fix sz d p oldest
  assume h: "size_media r = Some sz \<and> disk_free e (files w) \<le> sz + keep_free s \<and>
             date r = Some d \<and> d \<noteq> 0 \<and>
             py_min (\<lambda>(p, f). mtime f) (filter (\<lambda>(p, f). is_mp4 e p) (files w))
               = Some (p, oldest) \<and>
             d \<le> mtime oldest"
  then have "fst (cleanup_loop e s r w) = Inl DiskLimitReached \<and>
         files (snd (cleanup_loop e s r w)) = files w"
    by (intro cleanup_loop_limit [of r sz e w s d p oldest]) simp_all
  then show "fst (cleanup_loop e s r w) = Inl DiskLimitReached"
    and "files (snd (cleanup_loop e s r w)) = files w" by simp_all
qed

theorem disk_cleanup_deletes_only_older_witness:
  "distinct (map fst (files ex_world)) \<and>
   (''a.mp4'', old_a) \<in> set (files ex_world) \<and>
   ''a.mp4'' \<notin> fst ` set (files (snd (disk_cleanup ex_env ex_settings ex_media ex_world))) \<and>
   (\<exists>d. date ex_media = Some d \<and> mtime old_a < d) \<and>
   disk_cleanup ex_env ex_settings big_media only_b = cleanup_loop ex_env ex_settings big_media only_b \<and>
   disk_free ex_env (files only_b) \<le> 13 + keep_free ex_settings \<and>
   py_min (\<lambda>(p, f). mtime f) (filter (\<lambda>(p, f). is_mp4 ex_env p) (files only_b)) = Some (''b.mp4'', new_b) \<and>
   5 \<le> mtime new_b \<and>
   fst (cleanup_loop ex_env ex_settings big_media only_b) = Inl DiskLimitReached \<and>
   files (snd (cleanup_loop ex_env ex_settings big_media only_b)) = files only_b"
proof -
  have d1: "distinct (map fst (files ex_world))" by (simp add: ex_defs)
  have d2: "distinct (map fst (files only_b))" by (simp add: only_b_def)
  have run: "files (snd (disk_cleanup ex_env ex_settings ex_media ex_world)) = [(''b.mp4'', new_b)]"
    by (simp add: cleanup_defs fs_defs ex_defs)
  have h1: "(''a.mp4'', old_a) \<in> set (files ex_world) \<and>
            ''a.mp4'' \<notin> fst ` set (files (snd (disk_cleanup ex_env ex_settings ex_media ex_world)))"
    by (simp add: run) (simp add: ex_defs)
  have h2: "keep_free ex_settings \<noteq> 0 \<and> truthy (size_media big_media)"
    by (simp add: ex_defs big_media_def truthy_def int_and_def)
  have h3: "size_media big_media = Some 13 \<and>
            disk_free ex_env (files only_b) \<le> 13 + keep_free ex_settings \<and>
            date big_media = Some 5 \<and> (5::int) \<noteq> 0 \<and>
            py_min (\<lambda>(p, f). mtime f) (filter (\<lambda>(p, f). is_mp4 ex_env p) (files only_b))
               = Some (''b.mp4'', new_b) \<and>
            5 \<le> mtime new_b"
    by (simp add: ex_defs big_media_def only_b_def py_min_def size_of_def)
  note t1 = disk_cleanup_deletes_only_older [OF d1, of ex_env ex_settings ex_media]
  note t2 = disk_cleanup_deletes_only_older [OF d2, of ex_env ex_settings big_media]
  from t1 h1 have c1: "\<exists>d. date ex_media = Some d \<and> mtime old_a < d" by blast
  from t2 h2 have c2: "disk_cleanup ex_env ex_settings big_media only_b
                         = cleanup_loop ex_env ex_settings big_media only_b" by blast
  from t2 h3 have c3: "fst (cleanup_loop ex_env ex_settings big_media only_b) = Inl DiskLimitReached \<and>
      files (snd (cleanup_loop ex_env ex_settings big_media only_b)) = files only_b" by blast
  from d1 h1 c1 c2 h3 c3 show ?thesis by simp
qed

text \<open>
  Claim C4 says the loop returns as soon as free space is greater than or equal to the
  required amount. At equality it does not: the test of line 276 is \<^verbatim>\<open>space > needed\<close>.
  Here free space is 4, the reference needs 2 + 2, and the oldest video is deleted.
\<close>

theorem disk_cleanup_equal_space_counterexample:
  "disk_free ex_env (files ex_world) = 2 + keep_free ex_settings \<and>
   size_media exact_media = Some 2 \<and>
   disk_cleanup ex_env ex_settings exact_media ex_world =
     (Inr (), \<lparr>files = [(''b.mp4'', new_b)], now = 100,
               console = [FreeSpace 0 0, RemovingOldVideo ''a.mp4''], requests = []\<rparr>)"
  by (simp add: cleanup_defs fs_defs ex_defs exact_media_def)

text \<open>
  Claim C4, amended. When the two assertions hold, \<open>disk_cleanup\<close> returns at once,
  with nothing changed, as soon as free space is strictly greater than the reference's
  size plus the floor; when free space is less than or equal to that amount the pass
  through the loop does not break, and goes on to the eviction checks.
\<close>

theorem disk_cleanup_enough_space:
  assumes "keep_free s \<noteq> 0" "size_media r = Some sz" "sz \<noteq> 0"
  shows "(disk_free e (files w) > sz + keep_free s
            \<longrightarrow> disk_cleanup e s r w = (Inr (), w))
       \<and> (disk_free e (files w) \<le> sz + keep_free s
            \<longrightarrow> fst (cleanup_body e s r w) \<noteq> Break)"
proof (intro conjI impI)
  assume "disk_free e (files w) > sz + keep_free s"
  with assms have "cleanup_body e s r w = (Break, w)"
    by (simp add: cleanup_body_def)
  from cleanup_loop_stop [OF this] assms show "disk_cleanup e s r w = (Inr (), w)"
    by (simp add: disk_cleanup_def truthy_def int_and_def)
next
  assume "disk_free e (files w) \<le> sz + keep_free s"
  with assms show "fst (cleanup_body e s r w) \<noteq> Break"
    by (simp add: cleanup_body_def Let_def split: option.splits prod.splits)
qed

theorem disk_cleanup_enough_space_witness:
  "keep_free ex_settings \<noteq> 0 \<and> size_media exact_media = Some 2 \<and> (2::int) \<noteq> 0 \<and>
   disk_free ex_env (files only_b) > 2 + keep_free ex_settings \<and>
   disk_cleanup ex_env ex_settings exact_media only_b = (Inr (), only_b) \<and>
   disk_free ex_env (files ex_world) \<le> 2 + keep_free ex_settings \<and>
   fst (cleanup_body ex_env ex_settings exact_media ex_world) \<noteq> Break"
proof -
  have a: "keep_free ex_settings \<noteq> 0" "size_media exact_media = Some 2" "(2::int) \<noteq> 0"
    by (simp_all add: ex_defs exact_media_def)
  have b: "disk_free ex_env (files only_b) > 2 + keep_free ex_settings"
    by (simp add: ex_defs size_of_def)
  have c: "disk_free ex_env (files ex_world) \<le> 2 + keep_free ex_settings"
    by (simp add: ex_defs size_of_def)
  from disk_cleanup_enough_space [OF a, of ex_env only_b] b
  have d: "disk_cleanup ex_env ex_settings exact_media only_b = (Inr (), only_b)" by blast
  from disk_cleanup_enough_space [OF a, of ex_env ex_world] c
  have "fst (cleanup_body ex_env ex_settings exact_media ex_world) \<noteq> Break" by blast
  with a b c d show ?thesis by simp
qed

text \<open>
  Claim C5 says \<open>MissingTimestampError\<close> is raised for a reference without a date
  whatever the free space is. With enough free space nothing is raised: the space test
  of line 276 comes before the date test of line 282.
\<close>

theorem disk_cleanup_undated_counterexample:
  "date undated_media = None \<and>
   disk_cleanup ex_env ex_settings undated_media only_b = (Inr (), only_b)"
  by (simp add: cleanup_defs fs_defs ex_defs undated_media_def)

text \<open>
  Claim C5, amended. For a reference without a publish date (\<^verbatim>\<open>None\<close> or zero),
  \<open>disk_cleanup\<close> never deletes a file; when its assertions hold it raises
  \<open>MissingTimestampError\<close> if free space is less than or equal to the reference's size
  plus the floor, and returns normally, with nothing changed, if free space is greater.
\<close>

theorem disk_cleanup_missing_timestamp:
  assumes "\<not> truthy (date r)"
  shows "files (snd (disk_cleanup e s r w)) = files w
       \<and> (\<forall>sz. keep_free s \<noteq> 0 \<and> size_media r = Some sz \<and> sz \<noteq> 0 \<longrightarrow>
            (disk_free e (files w) \<le> sz + keep_free s
               \<longrightarrow> fst (disk_cleanup e s r w) = Inl MissingTimestampError) \<and>
            (disk_free e (files w) > sz + keep_free s
               \<longrightarrow> disk_cleanup e s r w = (Inr (), w)))"
proof -
  obtain fl w1 where body: "cleanup_body e s r w = (fl, w1)"
    by (cases "cleanup_body e s r w")
  from assms body have nc: "fl \<noteq> Continue"
    by (auto simp: cleanup_body_def Let_def truthy_def int_and_def
             split: option.splits if_splits)
  have loop: "cleanup_loop e s r w =
      ((case fl of Break \<Rightarrow> Inr () | Raise err \<Rightarrow> Inl err | Continue \<Rightarrow> Inr ()), w1)"
    by (rule cleanup_loop_stop [OF body nc])
  have f1: "files w1 = files w" by (rule cleanup_body_files [OF body nc])
  have p1: "files (snd (disk_cleanup e s r w)) = files w"
    using loop f1 by (simp add: disk_cleanup_def)
  have p2: "fst (disk_cleanup e s r w) = Inl MissingTimestampError"
    if "keep_free s \<noteq> 0" "size_media r = Some sz" "sz \<noteq> 0"
       "disk_free e (files w) \<le> sz + keep_free s" for sz
  proof -
    from that assms body have "fl = Raise MissingTimestampError"
      by (auto simp: cleanup_body_def Let_def truthy_def int_and_def
               split: option.splits if_splits)
    with loop that show ?thesis
      by (simp add: disk_cleanup_def truthy_def int_and_def)
  qed
  have p3: "disk_cleanup e s r w = (Inr (), w)"
    if "keep_free s \<noteq> 0" "size_media r = Some sz" "sz \<noteq> 0"
       "disk_free e (files w) > sz + keep_free s" for sz
  proof -
    from that body have "fl = Break \<and> w1 = w"
      by (simp add: cleanup_body_def)
    with loop that show ?thesis
      by (simp add: disk_cleanup_def truthy_def int_and_def)
  qed
  from p1 p2 p3 show ?thesis by blast
qed

theorem disk_cleanup_missing_timestamp_witness:
  "\<not> truthy (date undated_media) \<and>
   keep_free ex_settings \<noteq> 0 \<and> size_media undated_media = Some 2 \<and> (2::int) \<noteq> 0 \<and>
   disk_free ex_env (files ex_world) \<le> 2 + keep_free ex_settings \<and>
   fst (disk_cleanup ex_env ex_settings undated_media ex_world) = Inl MissingTimestampError \<and>
   files (snd (disk_cleanup ex_env ex_settings undated_media ex_world)) = files ex_world \<and>
   disk_free ex_env (files only_b) > 2 + keep_free ex_settings \<and>
   disk_cleanup ex_env ex_settings undated_media only_b = (Inr (), only_b)"
proof -
  have a: "\<not> truthy (date undated_media)"
    by (simp add: undated_media_def truthy_def int_and_def)
  have b: "keep_free ex_settings \<noteq> 0 \<and> size_media undated_media = Some 2 \<and> (2::int) \<noteq> 0"
    by (simp add: ex_defs undated_media_def)
  have c: "disk_free ex_env (files ex_world) \<le> 2 + keep_free ex_settings"
    by (simp add: ex_defs size_of_def)
  have d: "disk_free ex_env (files only_b) > 2 + keep_free ex_settings"
    by (simp add: ex_defs size_of_def)
  note t1 = disk_cleanup_missing_timestamp [OF a, of ex_env ex_settings ex_world]
  note t2 = disk_cleanup_missing_timestamp [OF a, of ex_env ex_settings only_b]
  from t1 b c have r1: "fst (disk_cleanup ex_env ex_settings undated_media ex_world)
                          = Inl MissingTimestampError" by blast
  from t1 have r2: "files (snd (disk_cleanup ex_env ex_settings undated_media ex_world))
                      = files ex_world" by blast
  from t2 b d have r3: "disk_cleanup ex_env ex_settings undated_media only_b = (Inr (), only_b)"
    by blast
  from a b c d r1 r2 r3 show ?thesis by simp
qed

section \<open>Properties of \<^verbatim>\<open>check_media\<close>\<close>

text \<open>
  Claim C6. \<open>check_media\<close> returns false when no final file exists; it returns true
  when the file exists and \<open>overwrite_bad\<close> is off; and with \<open>overwrite_bad\<close> on it
  returns false exactly when the expected size is known (neither \<^verbatim>\<open>None\<close> nor zero) and
  differs from the file's size, or \<open>checksums\<close> is on and the expected checksum is known
  (neither \<^verbatim>\<open>None\<close> nor empty) and differs from the file's digest.
\<close>

theorem check_media_result:
  "(lookup w (find_file e m (files w)) = None \<longrightarrow> \<not> fst (check_media e s m w))
   \<and> (\<forall>f. lookup w (find_file e m (files w)) = Some f \<longrightarrow>
         (\<not> overwrite_bad s \<longrightarrow> fst (check_media e s m w))
       \<and> (overwrite_bad s \<longrightarrow>
            (\<not> fst (check_media e s m w)) =
              ((\<exists>n. size_media m = Some n \<and> n \<noteq> 0 \<and> size_of f \<noteq> n)
               \<or> (checksums s \<and> (\<exists>h. md5 m = Some h \<and> h \<noteq> [] \<and> md5_file e f \<noteq> h)))))"
  by (auto simp: check_media_def Let_def int_and_def str_and_def split: option.splits)

theorem check_media_result_witness:
  "lookup ex_world (find_file ex_env ex_media (files ex_world)) = None \<and>
   \<not> fst (check_media ex_env ex_settings ex_media ex_world) \<and>
   lookup ex_world (find_file ex_env stale_media (files ex_world)) = Some old_a \<and>
   \<not> overwrite_bad ex_settings \<and>
   fst (check_media ex_env ex_settings stale_media ex_world) \<and>
   overwrite_bad audit_settings \<and>
   (\<exists>n. size_media stale_media = Some n \<and> n \<noteq> 0 \<and> size_of old_a \<noteq> n) \<and>
   \<not> fst (check_media ex_env audit_settings stale_media ex_world)"
proof -
  have a: "lookup ex_world (find_file ex_env ex_media (files ex_world)) = None"
    by (simp add: lookup_def ex_defs)
  have b: "lookup ex_world (find_file ex_env stale_media (files ex_world)) = Some old_a"
    by (simp add: lookup_def ex_defs stale_media_def)
  have c: "\<not> overwrite_bad ex_settings" "overwrite_bad audit_settings"
    by (simp_all add: ex_defs audit_settings_def)
  have d: "\<exists>n. size_media stale_media = Some n \<and> n \<noteq> 0 \<and> size_of old_a \<noteq> n"
    by (simp add: stale_media_def size_of_def old_a_def)
  from check_media_result [of ex_world ex_env ex_media ex_settings] a
  have r1: "\<not> fst (check_media ex_env ex_settings ex_media ex_world)" by blast
  from check_media_result [of ex_world ex_env stale_media ex_settings] b c(1)
  have r2: "fst (check_media ex_env ex_settings stale_media ex_world)" by blast
  from check_media_result [of ex_world ex_env stale_media audit_settings] b c(2) d
  have r3: "\<not> fst (check_media ex_env audit_settings stale_media ex_world)" by blast
  from a b c d r1 r2 r3 show ?thesis by simp
qed

section \<open>Properties of \<^verbatim>\<open>download_all\<close>\<close>

text \<open>\<open>disk_cleanup\<close> sends no request, and a reference without a date costs no file.\<close>

lemma cleanup_loop_requests: "requests (snd (cleanup_loop e s r w)) = requests w"
proof (induction e s r w rule: cleanup_loop.induct)
  case (1 e s r w)
  obtain fl w1 where body: "cleanup_body e s r w = (fl, w1)"
    by (cases "cleanup_body e s r w")
  show ?case
  proof (cases "fl = Continue")
    case False
    from cleanup_loop_stop [OF body False] cleanup_body_requests [OF body]
    show ?thesis by simp
  next
    case True
    with body have c: "cleanup_body e s r w = (Continue, w1)" by simp
    from "1.IH" [OF c [symmetric] refl] cleanup_loop_again [OF c] cleanup_body_requests [OF c]
    show ?thesis by simp
  qed
qed

lemma disk_cleanup_requests: "requests (snd (disk_cleanup e s r w)) = requests w"
  by (simp add: disk_cleanup_def cleanup_loop_requests)

lemma cleanup_body_undated:
  "\<not> truthy (date r) \<Longrightarrow> fst (cleanup_body e s r w) \<noteq> Continue"
  by (auto simp: cleanup_body_def Let_def truthy_def int_and_def
           split: option.splits if_splits)

lemma cleanup_loop_undated:
  assumes "\<not> truthy (date r)"
  shows "files (snd (cleanup_loop e s r w)) = files w"
proof -
  obtain fl w1 where body: "cleanup_body e s r w = (fl, w1)"
    by (cases "cleanup_body e s r w")
  with cleanup_body_undated [OF assms, of e s w] have nc: "fl \<noteq> Continue" by simp
  from cleanup_loop_stop [OF body nc] cleanup_body_files [OF body nc] show ?thesis by simp
qed

lemma cleanup_body_missing:
  "cleanup_body e s r w = (Raise MissingTimestampError, w1) \<Longrightarrow> \<not> truthy (date r)"
  by (auto simp: cleanup_body_def Let_def truthy_def int_and_def
           split: option.splits if_splits prod.splits)

lemma cleanup_loop_missing:
  "fst (cleanup_loop e s r w) = Inl MissingTimestampError \<Longrightarrow> \<not> truthy (date r)"
proof (induction e s r w rule: cleanup_loop.induct)
  case (1 e s r w)
  obtain fl w1 where body: "cleanup_body e s r w = (fl, w1)"
    by (cases "cleanup_body e s r w")
  show ?case
  proof (cases "fl = Continue")
    case False
    from cleanup_loop_stop [OF body False] "1.prems"
    have "fl = Raise MissingTimestampError" by (cases fl) simp_all
    with body show ?thesis by (simp add: cleanup_body_missing)
  next
    case True
    with body have c: "cleanup_body e s r w = (Continue, w1)" by simp
    from "1.prems" cleanup_loop_again [OF c]
    have "fst (cleanup_loop e s r w1) = Inl MissingTimestampError" by simp
    from "1.IH" [OF c [symmetric] refl this] show ?thesis .
  qed
qed

lemma disk_cleanup_missing_files:
  assumes "disk_cleanup e s r w = (Inl MissingTimestampError, w1)"
  shows "files w1 = files w"
proof -
  from assms have eq: "disk_cleanup e s r w = cleanup_loop e s r w"
    by (auto simp: disk_cleanup_def split: if_splits)
  with assms have loop: "cleanup_loop e s r w = (Inl MissingTimestampError, w1)" by simp
  then have "fst (cleanup_loop e s r w) = Inl MissingTimestampError" by simp
  then have "\<not> truthy (date r)" by (rule cleanup_loop_missing)
  then have "files (snd (cleanup_loop e s r w)) = files w" by (rule cleanup_loop_undated)
  with loop show ?thesis by simp
qed

text \<open>
  Claim C7. With a space floor configured (\<open>keep_free > 0\<close>), when \<open>disk_cleanup\<close>
  raises \<open>MissingTimestampError\<close> for the item at the head of the download list, that
  item alone is skipped: no file has changed, no request has been sent, and the loop goes
  on with the rest of the list. When \<open>disk_cleanup\<close> raises \<open>DiskLimitReached\<close> the loop
  ends there: the result is the world \<open>disk_cleanup\<close> left, whatever the rest of the list
  holds, and no request has been sent.
\<close>

theorem download_loop_eviction_errors:
  assumes "keep_free s > 0"
  shows "(\<forall>w1. disk_cleanup e s m w = (Inl MissingTimestampError, w1) \<longrightarrow>
            download_loop e s len num (m # ms) w =
              download_loop e s len (num + 1) ms (msg_if (quiet s < 2) (Skipping (name m)) w1)
            \<and> files w1 = files w \<and> requests w1 = requests w)
       \<and> (\<forall>w1. disk_cleanup e s m w = (Inl DiskLimitReached, w1) \<longrightarrow>
            download_loop e s len num (m # ms) w = (Inr (), w1)
            \<and> requests w1 = requests w)"
proof (intro conjI allI impI)
  fix w1
  assume h: "disk_cleanup e s m w = (Inl MissingTimestampError, w1)"
  with assms show "download_loop e s len num (m # ms) w =
      download_loop e s len (num + 1) ms (msg_if (quiet s < 2) (Skipping (name m)) w1)"
    by simp
  from h show "files w1 = files w" by (rule disk_cleanup_missing_files)
  from disk_cleanup_requests [of e s m w] h show "requests w1 = requests w" by simp
next
  fix w1
  assume h: "disk_cleanup e s m w = (Inl DiskLimitReached, w1)"
  with assms show "download_loop e s len num (m # ms) w = (Inr (), w1)" by simp
  from disk_cleanup_requests [of e s m w] h show "requests w1 = requests w" by simp
qed


theorem download_loop_eviction_errors_witness:
  "keep_free ex_settings > 0 \<and>
   disk_cleanup ex_env ex_settings undated_media ex_world =
     (Inl MissingTimestampError, ex_world\<lparr>console := [FreeSpace 0 0]\<rparr>) \<and>
   download_loop ex_env ex_settings 2 0 [undated_media, exact_media] ex_world =
     download_loop ex_env ex_settings 2 (0 + 1) [exact_media]
       (msg_if (quiet ex_settings < 2) (Skipping (name undated_media))
          (ex_world\<lparr>console := [FreeSpace 0 0]\<rparr>)) \<and>
   disk_cleanup ex_env ex_settings big_media only_b =
     (Inl DiskLimitReached, only_b\<lparr>console := [FreeSpace 0 0, LimitReachedUpToDate]\<rparr>) \<and>
   download_loop ex_env ex_settings 2 0 [big_media, exact_media] only_b =
     (Inr (), only_b\<lparr>console := [FreeSpace 0 0, LimitReachedUpToDate]\<rparr>)"
proof -
  have k: "keep_free ex_settings > 0" by (simp add: ex_defs)
  have a: "disk_cleanup ex_env ex_settings undated_media ex_world =
             (Inl MissingTimestampError, ex_world\<lparr>console := [FreeSpace 0 0]\<rparr>)"
    by (simp add: cleanup_defs fs_defs ex_defs undated_media_def)
  have b: "disk_cleanup ex_env ex_settings big_media only_b =
             (Inl DiskLimitReached, only_b\<lparr>console := [FreeSpace 0 0, LimitReachedUpToDate]\<rparr>)"
    by (simp add: cleanup_defs fs_defs ex_defs)
  from download_loop_eviction_errors [OF k, of ex_env undated_media ex_world 2 0 "[exact_media]"] a
  have r1: "download_loop ex_env ex_settings 2 0 [undated_media, exact_media] ex_world =
     download_loop ex_env ex_settings 2 (0 + 1) [exact_media]
       (msg_if (quiet ex_settings < 2) (Skipping (name undated_media))
          (ex_world\<lparr>console := [FreeSpace 0 0]\<rparr>))" by blast
  from download_loop_eviction_errors [OF k, of ex_env big_media only_b 2 0 "[exact_media]"] b
  have r2: "download_loop ex_env ex_settings 2 0 [big_media, exact_media] only_b =
     (Inr (), only_b\<lparr>console := [FreeSpace 0 0, LimitReachedUpToDate]\<rparr>)" by blast
  from k a r1 b r2 show ?thesis by blast
qed

section \<open>Properties of \<^verbatim>\<open>download_media\<close>\<close>

subsection \<open>The file operations\<close>

lemma lookup_msg_if [simp]: "lookup (msg_if c x w) p = lookup w p"
  by (simp add: lookup_def)

lemma requests_msg_if [simp]: "requests (msg_if c x w) = requests w"
  by (simp add: msg_if_def)

lemma now_msg_if [simp]: "now (msg_if c x w) = now w"
  by (simp add: msg_if_def)

lemma lookup_unlink: "lookup (unlink p w) q = (if q = p then None else lookup w q)"
  by (simp add: lookup_def unlink_def AList.delete_conv')

lemma requests_unlink [simp]: "requests (unlink p w) = requests w"
  by (simp add: unlink_def)

lemma files_unlink: "files (unlink p w) = AList.delete p (files w)"
  by (simp add: unlink_def)

lemma part_neq [simp]: "file @ ''.part'' \<noteq> file"
  by simp

lemma lookup_set_mtime:
  "lookup w p = Some t \<Longrightarrow> lookup (set_mtime p d w) p = Some (t\<lparr>mtime := d\<rparr>)"
  by (simp add: set_mtime_def lookup_def AList.update_conv')

lemma lookup_rename:
  "lookup w p = Some t \<Longrightarrow>
   lookup (rename p q w) r = (if r = q then Some t else if r = p then None else lookup w r)"
  by (simp add: rename_def lookup_def AList.update_conv' AList.delete_conv')

lemma requests_set_mtime [simp]: "requests (set_mtime p d w) = requests w"
  by (simp add: set_mtime_def split: option.splits)

lemma requests_rename [simp]: "requests (rename p q w) = requests w"
  by (simp add: rename_def split: option.splits)

lemma requests_promote [simp]: "requests (promote m tmp file w) = requests w"
  by (simp add: promote_def split: option.splits)

lemma lookup_promote:
  assumes "lookup w tmp = Some t"
  shows "lookup (promote m tmp file w) r =
           (if r = file then Some (stamped m t) else if r = tmp then None else lookup w r)"
proof (cases "truthy (date m)")
  case True
  then obtain d where d: "date m = Some d" "d \<noteq> 0"
    by (auto simp: truthy_def int_and_def split: option.splits)
  have "lookup (set_mtime tmp d w) r = (if r = tmp then Some (t\<lparr>mtime := d\<rparr>) else lookup w r)" for r
    using assms by (simp add: set_mtime_def lookup_def AList.update_conv')
  with d show ?thesis
    by (simp add: promote_def stamped_def lookup_rename)
next
  case False
  then have "promote m tmp file w = rename tmp file w" "stamped m t = t"
    by (auto simp: promote_def stamped_def truthy_def int_and_def split: option.splits)
  with assms show ?thesis by (simp add: lookup_rename)
qed


lemma content_stamped [simp]: "content (stamped m t) = content t"
  by (simp add: stamped_def split: option.splits)

lemma size_of_stamped [simp]: "size_of (stamped m t) = size_of t"
  by (simp add: size_of_def)

lemma md5_file_stamped [simp]: "md5_file e (stamped m t) = md5_file e t"
  by (simp add: md5_file_def)

subsection \<open>The transfer\<close>

lemma download_file_requests:
  "requests (snd (download_file e u p False rl w)) = requests w @ [(u, 0)]"
  by (simp add: download_file_def Let_def write_file_def split: sum.splits)

lemma download_file_written:
  assumes "download_file e u p False rl w = (Inr (), w1)"
  shows "\<exists>bs. lookup w1 p = Some \<lparr>content = bs, mtime = now w\<rparr>"
  using assms
  by (auto simp: download_file_def Let_def write_file_def lookup_def AList.update_conv'
           split: sum.splits)

subsection \<open>The regular download\<close>

text \<open>
  The outcomes of \<open>regular_download\<close>, by what the transfer leaves in the staging file.
\<close>

lemma regular_download_cases:
  obtains (raised) err w1 where
      "download_file e (url m) (file @ ''.part'') False (rate_limit s)
         (msg_if (quiet s < 2) (Downloading (filename m) (name m)) w) = (Inl err, w1)"
      "regular_download e s m file w = (Inl err, w1)"
    | (empty) w1 t where
      "download_file e (url m) (file @ ''.part'') False (rate_limit s)
         (msg_if (quiet s < 2) (Downloading (filename m) (name m)) w) = (Inr (), w1)"
      "lookup w1 (file @ ''.part'') = Some t" "size_of t = 0"
      "regular_download e s m file w =
         (Inr False,
          msg_if (quiet s < 2) (DownloadFailed (filename m)) (unlink (file @ ''.part'') w1))"
    | (kept) w1 t where
      "download_file e (url m) (file @ ''.part'') False (rate_limit s)
         (msg_if (quiet s < 2) (Downloading (filename m) (name m)) w) = (Inr (), w1)"
      "lookup w1 (file @ ''.part'') = Some t" "size_of t \<noteq> 0"
      "regular_download e s m file w =
         (if int_and (size_media m) (\<lambda>n. size_of t \<noteq> n)
          then (Inr False,
                msg_if (quiet s < 2) (SizeMismatch file) (promote m (file @ ''.part'') file w1))
          else if checksums s \<and> str_and (md5 m) (\<lambda>h. md5_file e t \<noteq> h)
          then (Inr True,
                msg_if (quiet s < 2) (ChecksumMismatch file)
                  (promote m (file @ ''.part'') file w1))
          else (Inr True, promote m (file @ ''.part'') file w1))"
proof -
  define tmpfile where "tmpfile = file @ ''.part''"
  define w0 where "w0 = msg_if (quiet s < 2) (Downloading (filename m) (name m)) w"
  note raised = raised [folded tmpfile_def w0_def]
  note empty = empty [folded tmpfile_def w0_def]
  note kept = kept [folded tmpfile_def w0_def]
  obtain res w1 where df: "download_file e (url m) tmpfile False (rate_limit s) w0 = (res, w1)"
    by (cases "download_file e (url m) tmpfile False (rate_limit s) w0")
  show thesis
  proof (cases res)
    case (Inl err)
    with df have "regular_download e s m file w = (Inl err, w1)"
      by (simp add: regular_download_def Let_def tmpfile_def w0_def)
    with df Inl show thesis by (intro raised) simp_all
  next
    case (Inr u)
    with df have df': "download_file e (url m) tmpfile False (rate_limit s) w0 = (Inr (), w1)"
      by simp
    from download_file_written [OF df'] obtain t where t: "lookup w1 tmpfile = Some t"
      by blast
    show thesis
    proof (cases "size_of t = 0")
      case True
      with df' t have "regular_download e s m file w =
         (Inr False, msg_if (quiet s < 2) (DownloadFailed (filename m)) (unlink tmpfile w1))"
        by (simp add: regular_download_def Let_def tmpfile_def w0_def)
      with df' t True show thesis by (intro empty)
    next
      case False
      have lk: "lookup (promote m tmpfile file w1) file = Some (stamped m t)"
        using t by (simp add: lookup_promote)
      from df' t False lk have "regular_download e s m file w =
         (if int_and (size_media m) (\<lambda>n. size_of t \<noteq> n)
          then (Inr False, msg_if (quiet s < 2) (SizeMismatch file) (promote m tmpfile file w1))
          else if checksums s \<and> str_and (md5 m) (\<lambda>h. md5_file e t \<noteq> h)
          then (Inr True, msg_if (quiet s < 2) (ChecksumMismatch file) (promote m tmpfile file w1))
          else (Inr True, promote m tmpfile file w1))"
        by (simp add: regular_download_def Let_def tmpfile_def w0_def)
      with df' t False show thesis by (intro kept)
    qed
  qed
qed

lemma regular_download_requests:
  "requests (snd (regular_download e s m file w)) = requests w @ [(url m, 0)]"
proof -
  let ?w0 = "msg_if (quiet s < 2) (Downloading (filename m) (name m)) w"
  have r: "requests (snd (download_file e (url m) (file @ ''.part'') False (rate_limit s) ?w0))
             = requests w @ [(url m, 0)]"
    by (simp add: download_file_requests)
  show ?thesis
    by (cases e s m "file" w rule: regular_download_cases) (use r in \<open>simp_all split: if_splits\<close>)
qed

lemma regular_download_final:
  assumes "regular_download e s m file w = (Inr True, w')"
  shows "\<exists>t. lookup w' file = Some (stamped m t) \<and> size_of t \<noteq> 0"
  using assms
proof (cases e s m "file" w rule: regular_download_cases)
  case (kept w1 t)
  with assms have "w' = promote m (file @ ''.part'') file w1
      \<or> w' = msg_if (quiet s < 2) (ChecksumMismatch file) (promote m (file @ ''.part'') file w1)"
    by (auto split: if_splits)
  with kept(2,3) show ?thesis by (auto simp: lookup_promote)
qed simp_all

subsection \<open>The resumed download\<close>

lemma int_and_iff: "int_and x P = (\<exists>n. x = Some n \<and> n \<noteq> 0 \<and> P n)"
  by (simp add: int_and_def split: option.splits)

lemma str_and_iff: "str_and x P = (\<exists>h. x = Some h \<and> h \<noteq> [] \<and> P h)"
  by (simp add: str_and_def split: option.splits)

lemma download_file_resumed:
  assumes "lookup w p = Some t" "download_file e u p True rl w = (Inr (), w1)"
  shows "\<exists>t1. lookup w1 p = Some t1"
  using assms
  by (auto simp: download_file_def Let_def write_file_def lookup_def AList.update_conv'
           split: sum.splits if_splits)

lemma resume_download_keeps:
  assumes "lookup w tmp = Some t" "resume_download e s m tmp t w = (Inr (), w1)"
  shows "\<exists>t1. lookup w1 tmp = Some t1"
proof (cases "int_and (size_media m) (\<lambda>n. size_of t < n)")
  case True
  with assms(2) have "download_file e (url m) tmp True (rate_limit s)
      (msg_if (quiet s < 2) (Resuming (filename m) (name m)) w) = (Inr (), w1)"
    by (simp add: resume_download_def)
  with assms(1) show ?thesis by (intro download_file_resumed) simp_all
next
  case False
  with assms show ?thesis by (simp add: resume_download_def)
qed

lemma resume_download_idle:
  "\<not> truthy (size_media m) \<Longrightarrow> resume_download e s m tmp t w = (Inr (), w)"
  by (auto simp: resume_download_def truthy_def int_and_def split: option.splits)

lemma download_media_fresh:
  "lookup w (find_file e m (files w) @ ''.part'') = None \<Longrightarrow>
   download_media e s m w = regular_download e s m (find_file e m (files w)) w"
  by (simp add: download_media_def Let_def)

lemma download_media_resumed:
  assumes "lookup w (find_file e m (files w) @ ''.part'') = Some t"
    and "resume_download e s m (find_file e m (files w) @ ''.part'') t w = (Inr (), w1)"
    and "lookup w1 (find_file e m (files w) @ ''.part'') = Some t1"
  shows "download_media e s m w =
     (if int_and (size_media m) (\<lambda>n. size_of t1 \<noteq> n)
      then regular_download e s m (find_file e m (files w))
             (unlink (find_file e m (files w) @ ''.part'')
                (msg_if (quiet s < 2)
                   (SizeMismatchDeleting (find_file e m (files w) @ ''.part'')) w1))
      else if str_and (md5 m) (\<lambda>h. md5_file e t1 \<noteq> h)
      then regular_download e s m (find_file e m (files w))
             (unlink (find_file e m (files w) @ ''.part'')
                (msg_if (quiet s < 2)
                   (ChecksumMismatchDeleting (find_file e m (files w) @ ''.part'')) w1))
      else (Inr True,
            promote m (find_file e m (files w) @ ''.part'') (find_file e m (files w)) w1))"
  using assms by (simp add: download_media_def Let_def)

lemma download_media_success:
  assumes "download_media e s m w = (Inr True, w')"
  shows "\<exists>t. lookup w' (find_file e m (files w)) = Some (stamped m t)"
proof (cases "lookup w (find_file e m (files w) @ ''.part'')")
  case None
  from download_media_fresh [OF None] assms regular_download_final show ?thesis
    by metis
next
  case (Some t)
  obtain res w1 where rd:
    "resume_download e s m (find_file e m (files w) @ ''.part'') t w = (res, w1)"
    by (cases "resume_download e s m (find_file e m (files w) @ ''.part'') t w")
  show ?thesis
  proof (cases res)
    case (Inl err)
    with Some rd assms show ?thesis by (simp add: download_media_def Let_def)
  next
    case (Inr u)
    with rd have rd': "resume_download e s m (find_file e m (files w) @ ''.part'') t w
                         = (Inr (), w1)" by simp
    from resume_download_keeps [OF Some rd'] obtain t1 where
      t1: "lookup w1 (find_file e m (files w) @ ''.part'') = Some t1" by blast
    note eq = download_media_resumed [OF Some rd' t1]
    show ?thesis
    proof (cases "int_and (size_media m) (\<lambda>n. size_of t1 \<noteq> n)
                  \<or> str_and (md5 m) (\<lambda>h. md5_file e t1 \<noteq> h)")
      case True
      with eq assms obtain w2 where
        "regular_download e s m (find_file e m (files w)) w2 = (Inr True, w')"
        by (auto split: if_splits)
      from regular_download_final [OF this] show ?thesis by blast
    next
      case False
      with eq assms have "w' = promote m (find_file e m (files w) @ ''.part'')
                                  (find_file e m (files w)) w1" by simp
      with t1 show ?thesis by (auto simp: lookup_promote)
    qed
  qed
qed

lemma now_unlink [simp]: "now (unlink p w) = now w"
  by (simp add: unlink_def)









text \<open>
  What holds on the regular path once the transfer has left a non-empty staging file: the
  file is renamed to its final name and stays there, whatever the audit finds; a checksum
  mismatch never changes the result; a size mismatch makes the result \<^verbatim>\<open>False\<close>.
\<close>

lemma regular_download_kept_file:
  assumes "download_file e (url m) (file @ ''.part'') False (rate_limit s)
             (msg_if (quiet s < 2) (Downloading (filename m) (name m)) w) = (Inr (), w1)"
    and "lookup w1 (file @ ''.part'') = Some t" "size_of t \<noteq> 0"
  shows "lookup (snd (regular_download e s m file w)) file = Some (stamped m t)"
    and "lookup (snd (regular_download e s m file w)) (file @ ''.part'') = None"
    and "fst (regular_download e s m file w) =
           Inr (\<not> (\<exists>n. size_media m = Some n \<and> n \<noteq> 0 \<and> size_of t \<noteq> n))"
proof -
  have lk: "lookup (promote m (file @ ''.part'') file w1) file = Some (stamped m t)"
    using assms(2) by (simp add: lookup_promote)
  have eq: "regular_download e s m file w =
      (if int_and (size_media m) (\<lambda>n. size_of t \<noteq> n)
       then (Inr False,
             msg_if (quiet s < 2) (SizeMismatch file) (promote m (file @ ''.part'') file w1))
       else if checksums s \<and> str_and (md5 m) (\<lambda>h. md5_file e t \<noteq> h)
       then (Inr True,
             msg_if (quiet s < 2) (ChecksumMismatch file)
               (promote m (file @ ''.part'') file w1))
       else (Inr True, promote m (file @ ''.part'') file w1))"
    using assms lk by (simp add: regular_download_def Let_def)
  from assms(2) show "lookup (snd (regular_download e s m file w)) file = Some (stamped m t)"
    by (simp add: eq lookup_promote)
  from assms(2) show "lookup (snd (regular_download e s m file w)) (file @ ''.part'') = None"
    by (simp add: eq lookup_promote)
  show "fst (regular_download e s m file w) =
           Inr (\<not> (\<exists>n. size_media m = Some n \<and> n \<noteq> 0 \<and> size_of t \<noteq> n))"
    by (simp add: eq int_and_iff)
qed

text \<open>
  Claim C3 on a concrete input: a regular download of ten bytes for a descriptor that
  expects twelve. The file is renamed to its final name, stamped and kept, the mismatch
  is written to the console, and the call returns \<^verbatim>\<open>False\<close> (line 163), although the
  comment of line 159 calls the size check \<^verbatim>\<open>log only\<close>.
\<close>

theorem download_media_fresh_size_mismatch:
  "download_media ex_env ex_settings (good_media\<lparr>size_media := Some 12\<rparr>) empty_dir =
     (Inr False,
      \<lparr>files = [(''v.mp4'', \<lparr>content = ''abcdefghij'', mtime = 7\<rparr>)], now = 100,
         console = [Downloading ''v.mp4'' ''V'', SizeMismatch ''v.mp4''],
         requests = [(''u'', 0)]\<rparr>)"
  by (simp add: media_defs fs_defs ex_defs good_media_def empty_dir_def)

text \<open>
  Claim C2 says a resumed staging file that fails the size or checksum test is deleted
  and the item fails, with no further download and no final file. Here the resumed file
  has the right size and the wrong digest; it is deleted, and the same call downloads
  the video again from byte 0, creates the final file and returns \<^verbatim>\<open>True\<close>.
\<close>

theorem download_media_resumed_counterexample:
  "download_media ex_env ex_settings good_media part_world =
     (Inr True,
      \<lparr>files = [(''v.mp4'', \<lparr>content = ''abcdefghij'', mtime = 7\<rparr>)], now = 100,
         console = [Resuming ''v.mp4'' ''V'', ChecksumMismatchDeleting ''v.mp4.part'',
                    Downloading ''v.mp4'' ''V''],
         requests = [(''u'', 4), (''u'', 0)]\<rparr>)"
  by (simp add: media_defs fs_defs ex_defs good_media_def part_world_def)

text \<open>
  Claim C2, amended. For a media item with a staging file, if after the (possibly
  resumed) transfer the expected size is known and differs from the staging file's size,
  or the expected checksum is known and differs from its digest, then \<open>download_media\<close>
  deletes the staging file and goes on, in the same call, to the regular download: a
  request from byte 0 is sent, and the result of the call and the final file are those of
  the regular download.
\<close>

theorem download_media_resumed_mismatch:
  assumes "file = find_file e m (files w)" "tmp = file @ ''.part''"
    and "lookup w tmp = Some t"
    and "resume_download e s m tmp t w = (Inr (), w1)"
    and "lookup w1 tmp = Some t1"
    and "(\<exists>n. size_media m = Some n \<and> n \<noteq> 0 \<and> size_of t1 \<noteq> n) \<or>
         (\<exists>h. md5 m = Some h \<and> h \<noteq> [] \<and> md5_file e t1 \<noteq> h)"
  shows "\<exists>w2. files w2 = AList.delete tmp (files w1) \<and> lookup w2 tmp = None \<and>
              requests w2 = requests w1 \<and>
              download_media e s m w = regular_download e s m file w2 \<and>
              requests (snd (download_media e s m w)) = requests w1 @ [(url m, 0)]"
proof -
  define c where "c = (if int_and (size_media m) (\<lambda>n. size_of t1 \<noteq> n)
                        then SizeMismatchDeleting tmp else ChecksumMismatchDeleting tmp)"
  define w2 where "w2 = unlink tmp (msg_if (quiet s < 2) c w1)"
  from assms(6) have mm: "int_and (size_media m) (\<lambda>n. size_of t1 \<noteq> n) \<or>
                          str_and (md5 m) (\<lambda>h. md5_file e t1 \<noteq> h)"
    by (simp add: int_and_iff str_and_iff)
  from download_media_resumed [of w e m t s w1 t1] assms(1-5) mm
  have eq: "download_media e s m w = regular_download e s m file w2"
    by (auto simp: w2_def c_def)
  have "files w2 = AList.delete tmp (files w1)" "lookup w2 tmp = None"
       "requests w2 = requests w1"
    by (simp_all add: w2_def files_unlink lookup_unlink)
  with eq regular_download_requests [of e s m "file" w2] show ?thesis by auto
qed

theorem download_media_resumed_mismatch_witness:
  "''v.mp4'' = find_file ex_env good_media (files part_world) \<and>
   lookup part_world ''v.mp4.part'' = Some \<lparr>content = ''XXXX'', mtime = 1\<rparr> \<and>
   resume_download ex_env ex_settings good_media ''v.mp4.part''
       \<lparr>content = ''XXXX'', mtime = 1\<rparr> part_world =
     (Inr (), \<lparr>files = [(''v.mp4.part'', \<lparr>content = ''XXXXefghij'', mtime = 100\<rparr>)],
                 now = 100, console = [Resuming ''v.mp4'' ''V''], requests = [(''u'', 4)]\<rparr>) \<and>
   (\<exists>h. md5 good_media = Some h \<and> h \<noteq> [] \<and>
        md5_file ex_env \<lparr>content = ''XXXXefghij'', mtime = 100\<rparr> \<noteq> h) \<and>
   requests (snd (download_media ex_env ex_settings good_media part_world)) =
     [(''u'', 4), (''u'', 0)]"
proof -
  let ?w1 = "\<lparr>files = [(''v.mp4.part'', \<lparr>content = ''XXXXefghij'', mtime = 100\<rparr>)],
                 now = 100, console = [Resuming ''v.mp4'' ''V''], requests = [(''u'', 4)]\<rparr>"
  have a: "''v.mp4'' = find_file ex_env good_media (files part_world)"
    by (simp add: ex_defs good_media_def)
  have b: "''v.mp4.part'' = ''v.mp4'' @ ''.part''" by simp
  have c: "lookup part_world ''v.mp4.part'' = Some \<lparr>content = ''XXXX'', mtime = 1\<rparr>"
    by (simp add: lookup_def part_world_def)
  have d: "resume_download ex_env ex_settings good_media ''v.mp4.part''
       \<lparr>content = ''XXXX'', mtime = 1\<rparr> part_world = (Inr (), ?w1)"
    by (simp add: media_defs fs_defs ex_defs good_media_def part_world_def)
  have f: "lookup ?w1 ''v.mp4.part'' = Some \<lparr>content = ''XXXXefghij'', mtime = 100\<rparr>"
    by (simp add: lookup_def)
  have g: "\<exists>h. md5 good_media = Some h \<and> h \<noteq> [] \<and>
        md5_file ex_env \<lparr>content = ''XXXXefghij'', mtime = 100\<rparr> \<noteq> h"
    by (simp add: good_media_def md5_file_def ex_defs)
  from download_media_resumed_mismatch [OF a b c d f disjI2 [OF g]]
  have "requests (snd (download_media ex_env ex_settings good_media part_world)) =
          [(''u'', 4), (''u'', 0)]"
    by (auto simp: good_media_def)
  with a c d g show ?thesis by blast
qed

text \<open>
  Claim C10 says that with a staging file and an unknown expected size no transfer is
  performed at all. When the expected checksum is known and differs, the staging file is
  deleted and the regular download follows: here one request is sent, from byte 0.
\<close>

theorem download_media_unsized_counterexample:
  "size_media (good_media\<lparr>size_media := None\<rparr>) = None \<and>
   lookup part_world ''v.mp4.part'' = Some \<lparr>content = ''XXXX'', mtime = 1\<rparr> \<and>
   download_media ex_env ex_settings (good_media\<lparr>size_media := None\<rparr>) part_world =
     (Inr True,
      \<lparr>files = [(''v.mp4'', \<lparr>content = ''abcdefghij'', mtime = 7\<rparr>)], now = 100,
         console = [ChecksumMismatchDeleting ''v.mp4.part'', Downloading ''v.mp4'' ''V''],
         requests = [(''u'', 0)]\<rparr>)"
  by (simp add: media_defs fs_defs ex_defs good_media_def part_world_def)

text \<open>
  Claim C10, amended. If a staging file exists and the expected size is unknown
  (\<^verbatim>\<open>None\<close> or zero), \<open>download_media\<close> does not resume the transfer. If the expected
  checksum is unknown or equals the digest of the staging file, no request is sent at
  all: the staging file is renamed to the final file as it is, stamped with the publish
  date when that is known, and the call returns \<^verbatim>\<open>True\<close>. If the expected checksum is
  known and differs, the staging file is deleted and the call goes on to the regular
  download, which sends one request from byte 0.
\<close>

theorem download_media_staging_unknown_size:
  assumes "file = find_file e m (files w)" "tmp = file @ ''.part''"
    and "lookup w tmp = Some t"
    and "\<not> truthy (size_media m)"
  shows "((\<exists>h. md5 m = Some h \<and> h \<noteq> [] \<and> md5_file e t \<noteq> h) \<longrightarrow>
            download_media e s m w =
              regular_download e s m file
                (unlink tmp (msg_if (quiet s < 2) (ChecksumMismatchDeleting tmp) w)) \<and>
            requests (snd (download_media e s m w)) = requests w @ [(url m, 0)])
       \<and> (\<not> (\<exists>h. md5 m = Some h \<and> h \<noteq> [] \<and> md5_file e t \<noteq> h) \<longrightarrow>
            fst (download_media e s m w) = Inr True \<and>
            requests (snd (download_media e s m w)) = requests w \<and>
            lookup (snd (download_media e s m w)) file = Some (stamped m t) \<and>
            lookup (snd (download_media e s m w)) tmp = None)"
proof -
  have idle: "resume_download e s m tmp t w = (Inr (), w)"
    by (rule resume_download_idle [OF assms(4)])
  from assms(4) have nosize: "\<not> int_and (size_media m) (\<lambda>n. size_of t \<noteq> n)"
    by (auto simp: truthy_def int_and_def split: option.splits)
  note eq = download_media_resumed [of w e m t s w t, folded assms(1), folded assms(2),
                                    OF assms(3) idle assms(3)]
  show ?thesis
  proof (cases "str_and (md5 m) (\<lambda>h. md5_file e t \<noteq> h)")
    case True
    with eq nosize have r: "download_media e s m w =
        regular_download e s m file
          (unlink tmp (msg_if (quiet s < 2) (ChecksumMismatchDeleting tmp) w))" by simp
    have "requests (snd (download_media e s m w)) = requests w @ [(url m, 0)]"
      by (simp add: r regular_download_requests)
    with r True show ?thesis by (simp add: str_and_iff)
  next
    case False
    with eq nosize have r: "download_media e s m w = (Inr True, promote m tmp file w)"
      by simp
    from assms(2) have "tmp \<noteq> file" by simp
    with r assms(3) False show ?thesis
      by (simp add: str_and_iff lookup_promote)
  qed
qed

theorem download_media_staging_unknown_size_witness:
  "''v.mp4'' = find_file ex_env (good_media\<lparr>size_media := None\<rparr>) (files part_world) \<and>
   lookup part_world ''v.mp4.part'' = Some \<lparr>content = ''XXXX'', mtime = 1\<rparr> \<and>
   \<not> truthy (size_media (good_media\<lparr>size_media := None\<rparr>)) \<and>
   (\<exists>h. md5 (good_media\<lparr>size_media := None\<rparr>) = Some h \<and> h \<noteq> [] \<and>
        md5_file ex_env \<lparr>content = ''XXXX'', mtime = 1\<rparr> \<noteq> h) \<and>
   requests (snd (download_media ex_env ex_settings (good_media\<lparr>size_media := None\<rparr>)
                    part_world)) = requests part_world @ [(''u'', 0)] \<and>
   \<not> truthy (size_media (good_media\<lparr>size_media := None, md5 := None\<rparr>)) \<and>
   \<not> (\<exists>h. md5 (good_media\<lparr>size_media := None, md5 := None\<rparr>) = Some h \<and> h \<noteq> [] \<and>
        md5_file ex_env \<lparr>content = ''XXXX'', mtime = 1\<rparr> \<noteq> h) \<and>
   fst (download_media ex_env ex_settings (good_media\<lparr>size_media := None, md5 := None\<rparr>)
          part_world) = Inr True \<and>
   requests (snd (download_media ex_env ex_settings
                    (good_media\<lparr>size_media := None, md5 := None\<rparr>) part_world)) = [] \<and>
   lookup (snd (download_media ex_env ex_settings
                  (good_media\<lparr>size_media := None, md5 := None\<rparr>) part_world)) ''v.mp4''
     = Some \<lparr>content = ''XXXX'', mtime = 7\<rparr>"
proof -
  let ?m1 = "good_media\<lparr>size_media := None\<rparr>"
  let ?m2 = "good_media\<lparr>size_media := None, md5 := None\<rparr>"
  let ?t = "\<lparr>content = ''XXXX'', mtime = 1\<rparr>"
  have a1: "''v.mp4'' = find_file ex_env ?m1 (files part_world)"
    and a2: "''v.mp4'' = find_file ex_env ?m2 (files part_world)"
    by (simp_all add: ex_defs good_media_def)
  have b: "''v.mp4.part'' = ''v.mp4'' @ ''.part''" by simp
  have c: "lookup part_world ''v.mp4.part'' = Some ?t"
    by (simp add: lookup_def part_world_def)
  have d1: "\<not> truthy (size_media ?m1)" and d2: "\<not> truthy (size_media ?m2)"
    by (simp_all add: truthy_def int_and_def)
  have g1: "\<exists>h. md5 ?m1 = Some h \<and> h \<noteq> [] \<and> md5_file ex_env ?t \<noteq> h"
    by (simp add: good_media_def md5_file_def ex_defs)
  have g2: "\<not> (\<exists>h. md5 ?m2 = Some h \<and> h \<noteq> [] \<and> md5_file ex_env ?t \<noteq> h)"
    by simp
  from download_media_staging_unknown_size [OF a1 b c d1, of ex_settings] g1
  have "requests (snd (download_media ex_env ex_settings ?m1 part_world))
          = requests part_world @ [(url ?m1, 0)]"
    by blast
  then have r1: "requests (snd (download_media ex_env ex_settings ?m1 part_world))
              = requests part_world @ [(''u'', 0)]"
    by (simp add: good_media_def)
  from download_media_staging_unknown_size [OF a2 b c d2, of ex_settings] g2
  have "fst (download_media ex_env ex_settings ?m2 part_world) = Inr True \<and>
        requests (snd (download_media ex_env ex_settings ?m2 part_world))
          = requests part_world \<and>
        lookup (snd (download_media ex_env ex_settings ?m2 part_world)) ''v.mp4''
          = Some (stamped ?m2 ?t)"
    by blast
  then have r2: "fst (download_media ex_env ex_settings ?m2 part_world) = Inr True \<and>
            requests (snd (download_media ex_env ex_settings ?m2 part_world)) = [] \<and>
            lookup (snd (download_media ex_env ex_settings ?m2 part_world)) ''v.mp4''
              = Some \<lparr>content = ''XXXX'', mtime = 7\<rparr>"
    by (simp add: stamped_def good_media_def part_world_def)
  from a1 c d1 g1 r1 d2 g2 r2 show ?thesis by blast
qed

subsection \<open>Where checksums are compared\<close>

lemma console_msg_if: "console (msg_if c x w) = (if c then console w @ [x] else console w)"
  by (simp add: msg_if_def)

lemma console_unlink [simp]: "console (unlink p w) = console w"
  by (simp add: unlink_def)

lemma console_promote [simp]: "console (promote m tmp file w) = console w"
  by (simp add: promote_def rename_def set_mtime_def lookup_def split: option.splits)

lemma console_download_file:
  "download_file e u p resume rl w = (res, w1) \<Longrightarrow> console w1 = console w"
  by (auto simp: download_file_def Let_def write_file_def split: sum.splits option.splits if_splits)

lemma regular_download_silent:
  assumes "\<not> checksums s"
  shows "(ChecksumMismatch file \<in> set (console (snd (regular_download e s m file w))))
           = (ChecksumMismatch file \<in> set (console w))"
proof (cases e s m "file" w rule: regular_download_cases)
  case (raised err w1)
  from console_download_file [OF raised(1)] raised(2) show ?thesis
    by (simp add: console_msg_if)
next
  case (empty w1 t)
  from console_download_file [OF empty(1)] empty(4) show ?thesis
    by (simp add: console_msg_if)
next
  case (kept w1 t)
  from console_download_file [OF kept(1)] kept(4) assms show ?thesis
    by (simp add: console_msg_if)
qed

lemma regular_download_logs:
  assumes "checksums s" "quiet s < 2"
    and "download_file e (url m) (file @ ''.part'') False (rate_limit s)
           (msg_if (quiet s < 2) (Downloading (filename m) (name m)) w) = (Inr (), w1)"
    and "lookup w1 (file @ ''.part'') = Some t" "size_of t \<noteq> 0"
    and "\<not> int_and (size_media m) (\<lambda>n. size_of t \<noteq> n)"
    and "str_and (md5 m) (\<lambda>h. md5_file e t \<noteq> h)"
  shows "regular_download e s m file w =
           (Inr True, msg_if True (ChecksumMismatch file) (promote m (file @ ''.part'') file w1))"
  using assms by (simp add: regular_download_def Let_def lookup_promote)

text \<open>
  Claim C9. On the resumed path of \<open>download_media\<close>, once the size test has passed, a
  known expected checksum is compared with the digest of the staging file whatever
  \<open>checksums s\<close> is: a mismatch deletes the staging file and leads to the regular
  download (first part), and a match promotes the staging file to the final file, with
  success and with no request beyond those of the resume step (second part); both hold
  for every \<open>s\<close>. \<open>check_media\<close> and the audit that ends the regular download compare
  checksums only when \<open>checksums s\<close> is on: with the setting off, \<open>check_media\<close>
  accepts every file whose size passes and the regular download writes no checksum line
  (third and fourth part); with the setting on, \<open>check_media\<close> in \<^verbatim>\<open>--fix-broken\<close> mode
  rejects a mismatching file and the regular download reports the mismatch (fifth and
  sixth part).
\<close>

theorem resumed_checksum_ignores_setting:
  "(\<forall>file tmp t w1 t1 h.
      file = find_file e m (files w) \<and> tmp = file @ ''.part'' \<and> lookup w tmp = Some t \<and>
      resume_download e s m tmp t w = (Inr (), w1) \<and> lookup w1 tmp = Some t1 \<and>
      \<not> (\<exists>n. size_media m = Some n \<and> n \<noteq> 0 \<and> size_of t1 \<noteq> n) \<and>
      md5 m = Some h \<and> h \<noteq> [] \<and> md5_file e t1 \<noteq> h
      \<longrightarrow> download_media e s m w =
            regular_download e s m file
              (unlink tmp (msg_if (quiet s < 2) (ChecksumMismatchDeleting tmp) w1)))
   \<and> (\<forall>file tmp t w1 t1 h.
      file = find_file e m (files w) \<and> tmp = file @ ''.part'' \<and> lookup w tmp = Some t \<and>
      resume_download e s m tmp t w = (Inr (), w1) \<and> lookup w1 tmp = Some t1 \<and>
      \<not> (\<exists>n. size_media m = Some n \<and> n \<noteq> 0 \<and> size_of t1 \<noteq> n) \<and>
      md5 m = Some h \<and> h \<noteq> [] \<and> md5_file e t1 = h
      \<longrightarrow> download_media e s m w = (Inr True, promote m tmp file w1) \<and>
          requests (snd (download_media e s m w)) = requests w1 \<and>
          lookup (snd (download_media e s m w)) file = Some (stamped m t1) \<and>
          lookup (snd (download_media e s m w)) tmp = None)
   \<and> (\<forall>f. \<not> checksums s \<and> lookup w (find_file e m (files w)) = Some f \<and>
          \<not> (\<exists>n. size_media m = Some n \<and> n \<noteq> 0 \<and> size_of f \<noteq> n)
          \<longrightarrow> fst (check_media e s m w))
   \<and> (\<forall>file. \<not> checksums s
          \<longrightarrow> (ChecksumMismatch file \<in> set (console (snd (regular_download e s m file w))))
              = (ChecksumMismatch file \<in> set (console w)))
   \<and> (\<forall>f h. checksums s \<and> overwrite_bad s \<and> lookup w (find_file e m (files w)) = Some f \<and>
          md5 m = Some h \<and> h \<noteq> [] \<and> md5_file e f \<noteq> h
          \<longrightarrow> \<not> fst (check_media e s m w))
   \<and> (\<forall>file w1 t h. checksums s \<and> quiet s < 2 \<and>
          download_file e (url m) (file @ ''.part'') False (rate_limit s)
            (msg_if (quiet s < 2) (Downloading (filename m) (name m)) w) = (Inr (), w1) \<and>
          lookup w1 (file @ ''.part'') = Some t \<and> size_of t \<noteq> 0 \<and>
          \<not> (\<exists>n. size_media m = Some n \<and> n \<noteq> 0 \<and> size_of t \<noteq> n) \<and>
          md5 m = Some h \<and> h \<noteq> [] \<and> md5_file e t \<noteq> h
          \<longrightarrow> ChecksumMismatch file
                \<in> set (console (snd (regular_download e s m file w))))"
proof (intro conjI allI impI)
  fix pth tmp t w1 t1 h
  assume a: "pth = find_file e m (files w) \<and> tmp = pth @ ''.part'' \<and> lookup w tmp = Some t \<and>
      resume_download e s m tmp t w = (Inr (), w1) \<and> lookup w1 tmp = Some t1 \<and>
      \<not> (\<exists>n. size_media m = Some n \<and> n \<noteq> 0 \<and> size_of t1 \<noteq> n) \<and>
      md5 m = Some h \<and> h \<noteq> [] \<and> md5_file e t1 \<noteq> h"
  then have ns: "\<not> int_and (size_media m) (\<lambda>n. size_of t1 \<noteq> n)"
    and mm: "str_and (md5 m) (\<lambda>h. md5_file e t1 \<noteq> h)"
    by (simp_all add: int_and_iff str_and_iff)
  from a have "lookup w (find_file e m (files w) @ ''.part'') = Some t"
    "resume_download e s m (find_file e m (files w) @ ''.part'') t w = (Inr (), w1)"
    "lookup w1 (find_file e m (files w) @ ''.part'') = Some t1"
    by auto
  from download_media_resumed [OF this] ns mm a
  show "download_media e s m w =
            regular_download e s m pth
              (unlink tmp (msg_if (quiet s < 2) (ChecksumMismatchDeleting tmp) w1))"
    by simp
next
  fix f
  assume "\<not> checksums s \<and> lookup w (find_file e m (files w)) = Some f \<and>
          \<not> (\<exists>n. size_media m = Some n \<and> n \<noteq> 0 \<and> size_of f \<noteq> n)"
  then show "fst (check_media e s m w)"
    by (auto simp: check_media_def Let_def int_and_iff)
next
  fix pth
  assume "\<not> checksums s"
  then show "(ChecksumMismatch pth \<in> set (console (snd (regular_download e s m pth w))))
              = (ChecksumMismatch pth \<in> set (console w))"
    by (rule regular_download_silent)
next
  fix f h
  assume "checksums s \<and> overwrite_bad s \<and> lookup w (find_file e m (files w)) = Some f \<and>
          md5 m = Some h \<and> h \<noteq> [] \<and> md5_file e f \<noteq> h"
  then show "\<not> fst (check_media e s m w)"
    by (auto simp: check_media_def Let_def str_and_iff)
next
  fix pth w1 t h
  assume a: "checksums s \<and> quiet s < 2 \<and>
          download_file e (url m) (pth @ ''.part'') False (rate_limit s)
            (msg_if (quiet s < 2) (Downloading (filename m) (name m)) w) = (Inr (), w1) \<and>
          lookup w1 (pth @ ''.part'') = Some t \<and> size_of t \<noteq> 0 \<and>
          \<not> (\<exists>n. size_media m = Some n \<and> n \<noteq> 0 \<and> size_of t \<noteq> n) \<and>
          md5 m = Some h \<and> h \<noteq> [] \<and> md5_file e t \<noteq> h"
  then have "regular_download e s m pth w =
           (Inr True, msg_if True (ChecksumMismatch pth) (promote m (pth @ ''.part'') pth w1))"
    by (intro regular_download_logs) (auto simp: int_and_iff str_and_iff)
  then show "ChecksumMismatch pth \<in> set (console (snd (regular_download e s m pth w)))"
    by (simp add: console_msg_if)
next
  fix pth tmp t w1 t1 h
  assume a: "pth = find_file e m (files w) \<and> tmp = pth @ ''.part'' \<and> lookup w tmp = Some t \<and>
      resume_download e s m tmp t w = (Inr (), w1) \<and> lookup w1 tmp = Some t1 \<and>
      \<not> (\<exists>n. size_media m = Some n \<and> n \<noteq> 0 \<and> size_of t1 \<noteq> n) \<and>
      md5 m = Some h \<and> h \<noteq> [] \<and> md5_file e t1 = h"
  then have ns: "\<not> int_and (size_media m) (\<lambda>n. size_of t1 \<noteq> n)"
    and mm: "\<not> str_and (md5 m) (\<lambda>h. md5_file e t1 \<noteq> h)"
    by (simp_all add: int_and_iff str_and_iff)
  from a have "lookup w (find_file e m (files w) @ ''.part'') = Some t"
    "resume_download e s m (find_file e m (files w) @ ''.part'') t w = (Inr (), w1)"
    "lookup w1 (find_file e m (files w) @ ''.part'') = Some t1"
    by auto
  from download_media_resumed [OF this] ns mm a
  have eq: "download_media e s m w = (Inr True, promote m tmp pth w1)"
    by simp
  from a have t1: "lookup w1 tmp = Some t1" and ne: "tmp \<noteq> pth" by auto
  show "download_media e s m w = (Inr True, promote m tmp pth w1)" by (rule eq)
  show "requests (snd (download_media e s m w)) = requests w1" by (simp add: eq)
  from t1 show "lookup (snd (download_media e s m w)) pth = Some (stamped m t1)"
    by (simp add: eq lookup_promote)
  from t1 ne show "lookup (snd (download_media e s m w)) tmp = None"
    by (simp add: eq lookup_promote)
qed

theorem resumed_checksum_ignores_setting_witness:
  "\<not> checksums ex_settings \<and>
   lookup part_world ''v.mp4.part'' = Some \<lparr>content = ''XXXX'', mtime = 1\<rparr> \<and>
   md5 good_media = Some ''abcdefghij'' \<and>
   md5_file ex_env \<lparr>content = ''XXXXefghij'', mtime = 100\<rparr> \<noteq> ''abcdefghij'' \<and>
   download_media ex_env ex_settings good_media part_world =
     regular_download ex_env ex_settings good_media ''v.mp4''
       (unlink ''v.mp4.part''
          (msg_if (quiet ex_settings < 2) (ChecksumMismatchDeleting ''v.mp4.part'')
             \<lparr>files = [(''v.mp4.part'', \<lparr>content = ''XXXXefghij'', mtime = 100\<rparr>)],
                now = 100, console = [Resuming ''v.mp4'' ''V''],
                requests = [(''u'', 4)]\<rparr>)) \<and>
   lookup half_part ''v.mp4.part'' = Some \<lparr>content = ''abcd'', mtime = 1\<rparr> \<and>
   md5_file ex_env \<lparr>content = ''abcdefghij'', mtime = 100\<rparr> = ''abcdefghij'' \<and>
   download_media ex_env ex_settings good_media half_part =
     (Inr True,
      \<lparr>files = [(''v.mp4'', \<lparr>content = ''abcdefghij'', mtime = 7\<rparr>)], now = 100,
         console = [Resuming ''v.mp4'' ''V''], requests = [(''u'', 4)]\<rparr>) \<and>
   requests (snd (download_media ex_env ex_settings good_media half_part)) = [(''u'', 4)] \<and>
   \<not> checksums audit_settings \<and> overwrite_bad audit_settings \<and>
   fst (check_media ex_env audit_settings good_media bad_final) \<and>
   ChecksumMismatch ''v.mp4'' \<notin> set (console (snd (regular_download ex_env ex_settings
       (good_media\<lparr>md5 := Some ''zz''\<rparr>) ''v.mp4'' empty_dir))) \<and>
   checksums strict_settings \<and> overwrite_bad strict_settings \<and>
   \<not> fst (check_media ex_env strict_settings good_media bad_final) \<and>
   ChecksumMismatch ''v.mp4'' \<in> set (console (snd (regular_download ex_env strict_settings
       (good_media\<lparr>md5 := Some ''zz''\<rparr>) ''v.mp4'' empty_dir)))"
proof -
  let ?t = "\<lparr>content = ''XXXX'', mtime = 1\<rparr>"
  let ?t1 = "\<lparr>content = ''XXXXefghij'', mtime = 100\<rparr>"
  let ?w1 = "\<lparr>files = [(''v.mp4.part'', ?t1)], now = 100,
              console = [Resuming ''v.mp4'' ''V''], requests = [(''u'', 4)]\<rparr>"
  let ?h = "\<lparr>content = ''abcd'', mtime = 1\<rparr>"
  let ?h1 = "\<lparr>content = ''abcdefghij'', mtime = 100\<rparr>"
  let ?w3 = "\<lparr>files = [(''v.mp4.part'', ?h1)], now = 100,
              console = [Resuming ''v.mp4'' ''V''], requests = [(''u'', 4)]\<rparr>"
  let ?f = "\<lparr>content = ''XXXXXXXXXX'', mtime = 7\<rparr>"
  let ?m = "good_media\<lparr>md5 := Some ''zz''\<rparr>"
  let ?w2 = "\<lparr>files = [(''v.mp4.part'', ?h1)], now = 100,
              console = [Downloading ''v.mp4'' ''V''], requests = [(''u'', 0)]\<rparr>"
  have s1: "\<not> checksums ex_settings" and s2: "\<not> checksums audit_settings"
    and s3: "overwrite_bad audit_settings" and s4: "checksums strict_settings"
    and s5: "overwrite_bad strict_settings"
    by (simp_all add: ex_defs audit_settings_def strict_settings_def)
  have a: "''v.mp4'' = find_file ex_env good_media (files part_world) \<and>
      ''v.mp4.part'' = ''v.mp4'' @ ''.part'' \<and> lookup part_world ''v.mp4.part'' = Some ?t \<and>
      resume_download ex_env ex_settings good_media ''v.mp4.part'' ?t part_world
        = (Inr (), ?w1) \<and>
      lookup ?w1 ''v.mp4.part'' = Some ?t1 \<and>
      \<not> (\<exists>n. size_media good_media = Some n \<and> n \<noteq> 0 \<and> size_of ?t1 \<noteq> n) \<and>
      md5 good_media = Some ''abcdefghij'' \<and> ''abcdefghij'' \<noteq> [] \<and>
      md5_file ex_env ?t1 \<noteq> ''abcdefghij''"
    by (simp add: media_defs fs_defs ex_defs good_media_def part_world_def)
  have a': "''v.mp4'' = find_file ex_env good_media (files half_part) \<and>
      ''v.mp4.part'' = ''v.mp4'' @ ''.part'' \<and> lookup half_part ''v.mp4.part'' = Some ?h \<and>
      resume_download ex_env ex_settings good_media ''v.mp4.part'' ?h half_part
        = (Inr (), ?w3) \<and>
      lookup ?w3 ''v.mp4.part'' = Some ?h1 \<and>
      \<not> (\<exists>n. size_media good_media = Some n \<and> n \<noteq> 0 \<and> size_of ?h1 \<noteq> n) \<and>
      md5 good_media = Some ''abcdefghij'' \<and> ''abcdefghij'' \<noteq> [] \<and>
      md5_file ex_env ?h1 = ''abcdefghij''"
    by (simp add: media_defs fs_defs ex_defs good_media_def half_part_def)
  have p: "promote good_media ''v.mp4.part'' ''v.mp4'' ?w3 =
      \<lparr>files = [(''v.mp4'', \<lparr>content = ''abcdefghij'', mtime = 7\<rparr>)], now = 100,
         console = [Resuming ''v.mp4'' ''V''], requests = [(''u'', 4)]\<rparr>"
    by (simp add: media_defs fs_defs good_media_def)
  have b3: "\<not> checksums audit_settings \<and>
      lookup bad_final (find_file ex_env good_media (files bad_final)) = Some ?f \<and>
      \<not> (\<exists>n. size_media good_media = Some n \<and> n \<noteq> 0 \<and> size_of ?f \<noteq> n)"
    by (simp add: fs_defs ex_defs good_media_def bad_final_def audit_settings_def)
  have b5: "checksums strict_settings \<and> overwrite_bad strict_settings \<and>
      lookup bad_final (find_file ex_env good_media (files bad_final)) = Some ?f \<and>
      md5 good_media = Some ''abcdefghij'' \<and> ''abcdefghij'' \<noteq> [] \<and>
      md5_file ex_env ?f \<noteq> ''abcdefghij''"
    by (simp add: fs_defs ex_defs good_media_def bad_final_def strict_settings_def)
  have c6: "checksums strict_settings \<and> quiet strict_settings < 2 \<and>
      download_file ex_env (url ?m) (''v.mp4'' @ ''.part'') False
             (rate_limit strict_settings)
             (msg_if (quiet strict_settings < 2) (Downloading (filename ?m) (name ?m))
                empty_dir) = (Inr (), ?w2) \<and>
      lookup ?w2 (''v.mp4'' @ ''.part'') = Some ?h1 \<and> size_of ?h1 \<noteq> 0 \<and>
      \<not> (\<exists>n. size_media ?m = Some n \<and> n \<noteq> 0 \<and> size_of ?h1 \<noteq> n) \<and>
      md5 ?m = Some ''zz'' \<and> ''zz'' \<noteq> [] \<and> md5_file ex_env ?h1 \<noteq> ''zz''"
    by (simp add: media_defs fs_defs ex_defs good_media_def empty_dir_def strict_settings_def)
  have d: "ChecksumMismatch ''v.mp4'' \<notin> set (console empty_dir)"
    by (simp add: empty_dir_def)
  note part1 = resumed_checksum_ignores_setting
                 [of ex_env good_media part_world ex_settings, THEN conjunct1, rule_format]
  note part2 = resumed_checksum_ignores_setting
                 [of ex_env good_media half_part ex_settings,
                  THEN conjunct2, THEN conjunct1, rule_format]
  note part3 = resumed_checksum_ignores_setting
                 [of ex_env good_media bad_final audit_settings,
                  THEN conjunct2, THEN conjunct2, THEN conjunct1, rule_format]
  note part4 = resumed_checksum_ignores_setting
                 [of ex_env ?m empty_dir ex_settings,
                  THEN conjunct2, THEN conjunct2, THEN conjunct2, THEN conjunct1, rule_format]
  note part5 = resumed_checksum_ignores_setting
                 [of ex_env good_media bad_final strict_settings,
                  THEN conjunct2, THEN conjunct2, THEN conjunct2, THEN conjunct2,
                  THEN conjunct1, rule_format]
  note part6 = resumed_checksum_ignores_setting
                 [of ex_env ?m empty_dir strict_settings,
                  THEN conjunct2, THEN conjunct2, THEN conjunct2, THEN conjunct2,
                  THEN conjunct2, rule_format]
  have r1: "download_media ex_env ex_settings good_media part_world =
     regular_download ex_env ex_settings good_media ''v.mp4''
       (unlink ''v.mp4.part''
          (msg_if (quiet ex_settings < 2) (ChecksumMismatchDeleting ''v.mp4.part'') ?w1))"
    by (rule part1 [OF a])
  have r2: "download_media ex_env ex_settings good_media half_part =
        (Inr True, promote good_media ''v.mp4.part'' ''v.mp4'' ?w3)"
    by (rule part2 [OF a', THEN conjunct1])
  have r2a: "download_media ex_env ex_settings good_media half_part =
     (Inr True,
      \<lparr>files = [(''v.mp4'', \<lparr>content = ''abcdefghij'', mtime = 7\<rparr>)], now = 100,
         console = [Resuming ''v.mp4'' ''V''], requests = [(''u'', 4)]\<rparr>)"
    by (simp only: r2 p)
  have r2b: "requests (snd (download_media ex_env ex_settings good_media half_part))
               = [(''u'', 4)]"
    by (simp add: r2a)
  have r3: "fst (check_media ex_env audit_settings good_media bad_final)"
    by (rule part3 [OF b3])
  have "(ChecksumMismatch ''v.mp4'' \<in> set (console (snd
            (regular_download ex_env ex_settings ?m ''v.mp4'' empty_dir))))
          = (ChecksumMismatch ''v.mp4'' \<in> set (console empty_dir))"
    by (rule part4 [OF s1])
  with d have r4: "ChecksumMismatch ''v.mp4'' \<notin> set (console (snd
      (regular_download ex_env ex_settings ?m ''v.mp4'' empty_dir)))"
    by (simp only: not_False_eq_True)
  have r5: "\<not> fst (check_media ex_env strict_settings good_media bad_final)"
    by (rule part5 [OF b5])
  have r6: "ChecksumMismatch ''v.mp4'' \<in> set (console (snd
      (regular_download ex_env strict_settings ?m ''v.mp4'' empty_dir)))"
    by (rule part6 [OF c6])
  have k1: "lookup part_world ''v.mp4.part'' = Some ?t"
    and k2: "md5 good_media = Some ''abcdefghij''"
    and k3: "md5_file ex_env ?t1 \<noteq> ''abcdefghij''"
    using a by blast+
  have k4: "lookup half_part ''v.mp4.part'' = Some ?h"
    and k5: "md5_file ex_env ?h1 = ''abcdefghij''"
    using a' by blast+
  show ?thesis
    by (intro conjI s1 k1 k2 k3 r1 k4 k5 r2a r2b s2 s3 r3 r4 s4 s5 r5 r6)
qed

end
